theory Spec2Isabelle
  imports Complex_Main
begin

section \<open>Data model\<close>

text \<open>
  The TypeScript variant of the game state, as the pages use it
  (\<^verbatim>\<open>Color | null\<close> cells, \<^verbatim>\<open>"red" | "yellow"\<close> colours) and as section 3 of the
  specification describes it: a cell is \<open>None\<close> (\<^verbatim>\<open>null\<close>, Empty) or \<open>Some c\<close>
  (Filled c); the board is a list of columns, each a list of cells.
\<close>

datatype color = red | yellow

datatype quality = bad | medium | best

record GameState =
  board :: "color option list list"
  currentPlayer :: color
  isGameOver :: bool
  winner :: "color option"

text \<open>
  A JavaScript number: a finite value, one of the two infinities, or \<^verbatim>\<open>NaN\<close>. Every
  finite double is a rational number, so the finite values are modelled as
  rationals; \<^verbatim>\<open>-0\<close> and \<^verbatim>\<open>0\<close>, which \<^verbatim>\<open>===\<close> does not tell apart, are one value.
\<close>

datatype number = Finite rat | PosInfinity | NegInfinity | NaN

text \<open>A column index, an integer, as the JavaScript number a page stores.\<close>

definition columnNumber :: "int \<Rightarrow> number" where
  "columnNumber column = Finite (of_int column)"

text \<open>
  \<^verbatim>\<open>ExtendedGameStateSchema = GameStateSchema.extend({newestPieceColumn,
  newestComputerPieceColumn, minimaxQuality})\<close>. The two column fields are
  \<^verbatim>\<open>z.number().nullable()\<close>: any JavaScript number or \<^verbatim>\<open>null\<close>.
\<close>

record ExtendedGameState = GameState +
  newestPieceColumn :: "number option"
  newestComputerPieceColumn :: "number option"
  minimaxQuality :: quality

text \<open>The failures of the engine (section 7 of the specification).\<close>

datatype error = InvalidColumn | ColumnFull | GameAlreadyOver | NoLegalMoves

section \<open>The pages\<close>

subsection \<open>Engine calls, logged\<close>

text \<open>
  The pages call the engine (\<^verbatim>\<open>ConnectFour.getComputerMove\<close>,
  \<^verbatim>\<open>ConnectFour.placePiece\<close>), which may throw. A page computation is modelled as
  the list of engine calls it has made, in order, together with either the thrown
  failure or the value; a failure stops the computation, as an uncaught exception
  does. The engine itself is a parameter of every page function.
\<close>

datatype ('s, 'q) engine_call = GetComputerMove 's 'q | PlacePiece 's int

type_synonym ('s, 'q, 'e, 'a) page = "('s, 'q) engine_call list \<times> ('e + 'a)"

definition ret :: "'a \<Rightarrow> ('s, 'q, 'e, 'a) page" where
  "ret x = ([], Inr x)"

definition bind :: "('s, 'q, 'e, 'a) page \<Rightarrow> ('a \<Rightarrow> ('s, 'q, 'e, 'b) page) \<Rightarrow> ('s, 'q, 'e, 'b) page" where
  "bind m f =
     (case m of
        (cs, Inl e) \<Rightarrow> (cs, Inl e)
      | (cs, Inr x) \<Rightarrow> (case f x of (cs', r) \<Rightarrow> (cs @ cs', r)))"

definition call_getComputerMove ::
    "('s \<Rightarrow> 'q \<Rightarrow> 'e + int) \<Rightarrow> 's \<Rightarrow> 'q \<Rightarrow> ('s, 'q, 'e, int) page" where
  "call_getComputerMove getComputerMove s q = ([GetComputerMove s q], getComputerMove s q)"

definition call_placePiece ::
    "('s \<Rightarrow> int \<Rightarrow> 'e + 's) \<Rightarrow> 's \<Rightarrow> int \<Rightarrow> ('s, 'q, 'e, 's) page" where
  "call_placePiece placePiece s column = ([PlacePiece s column], placePiece s column)"

fun forEach :: "('a \<Rightarrow> ('s, 'q, 'e, 'b) page) \<Rightarrow> 'a list \<Rightarrow> ('s, 'q, 'e, 'b list) page" where
  "forEach f [] = ret []"
| "forEach f (x # xs) = bind (f x) (\<lambda>y. bind (forEach f xs) (\<lambda>ys. ret (y # ys)))"

definition calls :: "('s, 'q, 'e, 'a) page \<Rightarrow> ('s, 'q) engine_call list" where
  "calls m = fst m"

definition outcome :: "('s, 'q, 'e, 'a) page \<Rightarrow> 'e + 'a" where
  "outcome m = snd m"

fun call_state :: "('s, 'q) engine_call \<Rightarrow> 's" where
  "call_state (GetComputerMove s q) = s"
| "call_state (PlacePiece s column) = s"

subsection \<open>Loading the state of a request\<close>

text \<open>
  \<^verbatim>\<open>
  try {
    if (searchParams.state) {
      const parsedState = JSON.parse(JSONCrush.uncrush(searchParams.state)) as unknown;
      gameState = ExtendedGameStateSchema.parse(parsedState);
    } else { gameState = initialState; }
  } catch (error) { gameState = initialState; }
  \<close>
  \<open>uncrush_parse\<close> is \<^verbatim>\<open>JSON.parse\<close> after \<^verbatim>\<open>JSONCrush.uncrush\<close> and \<open>schema_parse\<close>
  is the schema's \<^verbatim>\<open>parse\<close>; both are library code and return \<open>None\<close> where they
  throw. The parameter is \<open>None\<close> when the URL has no \<^verbatim>\<open>state\<close>; the empty string
  is falsy in JavaScript and takes the same branch.
\<close>

definition loadState ::
    "(string \<Rightarrow> 'j option) \<Rightarrow> ('j \<Rightarrow> 'st option) \<Rightarrow> 'st \<Rightarrow> string option \<Rightarrow> 'st" where
  "loadState uncrush_parse schema_parse initial stateParam =
     (case stateParam of
        None \<Rightarrow> initial
      | Some p \<Rightarrow>
          if p = [] then initial
          else (case uncrush_parse p of
                  None \<Rightarrow> initial
                | Some parsedState \<Rightarrow>
                    (case schema_parse parsedState of
                       None \<Rightarrow> initial
                     | Some gameState \<Rightarrow> gameState)))"

text \<open>
  \<^verbatim>\<open>initialState = {...ConnectFour.createInitialState(), newestPieceColumn: null,
  newestComputerPieceColumn: null, minimaxQuality: "best"}\<close>
\<close>

definition initialState :: "GameState \<Rightarrow> ExtendedGameState" where
  "initialState created =
     GameState.extend created
       (ExtendedGameState.fields None None best)"

subsection \<open>The computer's move and the speculative next state\<close>

text \<open>
  \<^verbatim>\<open>
  if (!gameState.isGameOver && gameState.currentPlayer === "yellow") {
    const computerMove = ConnectFour.getComputerMove(gameState, gameState.minimaxQuality);
    const computerState = ConnectFour.placePiece(gameState, computerMove);
    gameState = {...computerState, newestPieceColumn: gameState.newestPieceColumn,
                 minimaxQuality: gameState.minimaxQuality,
                 newestComputerPieceColumn: computerMove};
  }
  \<close>
\<close>

definition computerTurn ::
    "(GameState \<Rightarrow> quality \<Rightarrow> 'e + int) \<Rightarrow> (GameState \<Rightarrow> int \<Rightarrow> 'e + GameState) \<Rightarrow>
     ExtendedGameState \<Rightarrow> (GameState, quality, 'e, ExtendedGameState) page" where
  "computerTurn getComputerMove placePiece gameState =
     (if \<not> isGameOver gameState \<and> currentPlayer gameState = yellow then
        bind (call_getComputerMove getComputerMove (GameState.truncate gameState)
                (minimaxQuality gameState))
          (\<lambda>computerMove.
             bind (call_placePiece placePiece (GameState.truncate gameState) computerMove)
               (\<lambda>computerState.
                  ret (GameState.extend computerState
                         (ExtendedGameState.fields
                            (newestPieceColumn gameState)
                            (Some (columnNumber computerMove))
                            (minimaxQuality gameState)))))
      else ret gameState)"

text \<open>
  \<^verbatim>\<open>
  const getNextState = memoize((column: number): ExtendedGameState => {
    if (isGameOver) return gameState;
    const playerState = ConnectFour.placePiece(gameState, column);
    return {...playerState, minimaxQuality: gameState.minimaxQuality,
            newestPieceColumn: column, newestComputerPieceColumn: null};
  });
  \<close>
  The memo table lives in the request and is keyed by the column, so a column is
  computed at most once and the cached value is the computed one.
\<close>

definition getNextState ::
    "(GameState \<Rightarrow> int \<Rightarrow> 'e + GameState) \<Rightarrow> ExtendedGameState \<Rightarrow> int \<Rightarrow>
     (GameState, quality, 'e, ExtendedGameState) page" where
  "getNextState placePiece gameState column =
     (if isGameOver gameState then ret gameState
      else
        bind (call_placePiece placePiece (GameState.truncate gameState) column)
          (\<lambda>playerState.
             ret (GameState.extend playerState
                    (ExtendedGameState.fields (Some (columnNumber column)) None
                       (minimaxQuality gameState)))))"

text \<open>
  \<^verbatim>\<open>renderCell\<close> asks for the next state of a column at each of its cells that is
  \<^verbatim>\<open>null\<close> while the game is not over; by the memo table the engine is called once
  for each such column, in the order of the columns.
\<close>

definition linkColumns :: "ExtendedGameState \<Rightarrow> int list" where
  "linkColumns gameState =
     (if isGameOver gameState then []
      else map int (filter (\<lambda>c. None \<in> set (board gameState ! c))
                      [0 ..< length (board gameState)]))"

text \<open>The whole request: load, let the computer move, then every link of the board.\<close>

definition ConnectFourGame ::
    "(string \<Rightarrow> 'j option) \<Rightarrow> ('j \<Rightarrow> ExtendedGameState option) \<Rightarrow> GameState \<Rightarrow>
     (GameState \<Rightarrow> quality \<Rightarrow> 'e + int) \<Rightarrow> (GameState \<Rightarrow> int \<Rightarrow> 'e + GameState) \<Rightarrow>
     string option \<Rightarrow>
     (GameState, quality, 'e, ExtendedGameState \<times> ExtendedGameState list) page" where
  "ConnectFourGame uncrush_parse schema_parse created getComputerMove placePiece stateParam =
     bind (computerTurn getComputerMove placePiece
             (loadState uncrush_parse schema_parse (initialState created) stateParam))
       (\<lambda>gameState.
          bind (forEach (getNextState placePiece gameState) (linkColumns gameState))
            (\<lambda>nextStates. ret (gameState, nextStates)))"

subsection \<open>The WASM page\<close>

text \<open>
  The page of the Rust/WebAssembly engine declares its own schema:
  \<^verbatim>\<open>
  const CellSchema = z.union([z.literal("Empty"), z.object({ Filled: z.enum(["Red", "Yellow"]) })]);
  const GameStateSchema = z.object({
    board: z.array(z.array(CellSchema)),
    current_player: z.enum(["Red", "Yellow"]),
    is_game_over: z.boolean(),
    winner: z.enum(["Red", "Yellow"]).nullable().optional(),
  });
  \<close>
  The engine's state is typed \<^verbatim>\<open>any\<close> (\<^verbatim>\<open>GameStateJS\<close>), so colour names are strings
  here, and \<^verbatim>\<open>winner\<close> is a colour name, \<^verbatim>\<open>null\<close> or absent.
\<close>

datatype wasm_cell = Empty | Filled string

datatype 'a nullish = Undefined | Null | Value 'a

record WasmGameState =
  board_w :: "wasm_cell list list"
  current_player :: string
  is_game_over :: bool
  winner_w :: "string nullish"

record WasmExtendedGameState = WasmGameState +
  newestPieceColumn_w :: "number option"
  newestComputerPieceColumn_w :: "number option"
  minimaxQuality_w :: quality

definition initialState_w :: "WasmGameState \<Rightarrow> WasmExtendedGameState" where
  "initialState_w created =
     WasmGameState.extend created
       (WasmExtendedGameState.fields None None best)"

text \<open>
  \<^verbatim>\<open>
  if (!gameState.is_game_over && gameState.current_player === "Yellow") {
    const computerMove = ConnectFourWasm.get_computer_move(gameState, gameState.minimaxQuality);
    const computerState = ConnectFourWasm.place_piece(gameState, computerMove);
    gameState = {...computerState, newestPieceColumn: gameState.newestPieceColumn,
                 minimaxQuality: gameState.minimaxQuality,
                 newestComputerPieceColumn: computerMove};
  }
  \<close>
\<close>

definition computerTurn_w ::
    "(WasmGameState \<Rightarrow> quality \<Rightarrow> 'e + int) \<Rightarrow> (WasmGameState \<Rightarrow> int \<Rightarrow> 'e + WasmGameState) \<Rightarrow>
     WasmExtendedGameState \<Rightarrow> (WasmGameState, quality, 'e, WasmExtendedGameState) page" where
  "computerTurn_w get_computer_move place_piece gameState =
     (if \<not> is_game_over gameState \<and> current_player gameState = ''Yellow'' then
        bind (call_getComputerMove get_computer_move (WasmGameState.truncate gameState)
                (minimaxQuality_w gameState))
          (\<lambda>computerMove.
             bind (call_placePiece place_piece (WasmGameState.truncate gameState) computerMove)
               (\<lambda>computerState.
                  ret (WasmGameState.extend computerState
                         (WasmExtendedGameState.fields
                            (newestPieceColumn_w gameState)
                            (Some (columnNumber computerMove))
                            (minimaxQuality_w gameState)))))
      else ret gameState)"

text \<open>
  \<^verbatim>\<open>
  const getNextState = memoize((column: number): ExtendedGameState => {
    if (is_game_over) return gameState;
    const playerState = ConnectFourWasm.place_piece(gameState, column);
    return {...playerState, minimaxQuality: gameState.minimaxQuality,
            newestPieceColumn: column, newestComputerPieceColumn: null};
  });
  \<close>
\<close>

definition getNextState_w ::
    "(WasmGameState \<Rightarrow> int \<Rightarrow> 'e + WasmGameState) \<Rightarrow> WasmExtendedGameState \<Rightarrow> int \<Rightarrow>
     (WasmGameState, quality, 'e, WasmExtendedGameState) page" where
  "getNextState_w place_piece gameState column =
     (if is_game_over gameState then ret gameState
      else
        bind (call_placePiece place_piece (WasmGameState.truncate gameState) column)
          (\<lambda>playerState.
             ret (WasmGameState.extend playerState
                    (WasmExtendedGameState.fields (Some (columnNumber column)) None
                       (minimaxQuality_w gameState)))))"

definition linkColumns_w :: "WasmExtendedGameState \<Rightarrow> int list" where
  "linkColumns_w gameState =
     (if is_game_over gameState then []
      else map int (filter (\<lambda>c. Empty \<in> set (board_w gameState ! c))
                      [0 ..< length (board_w gameState)]))"

definition ConnectFourGame_w ::
    "(string \<Rightarrow> 'j option) \<Rightarrow> ('j \<Rightarrow> WasmExtendedGameState option) \<Rightarrow> WasmGameState \<Rightarrow>
     (WasmGameState \<Rightarrow> quality \<Rightarrow> 'e + int) \<Rightarrow> (WasmGameState \<Rightarrow> int \<Rightarrow> 'e + WasmGameState) \<Rightarrow>
     string option \<Rightarrow>
     (WasmGameState, quality, 'e, WasmExtendedGameState \<times> WasmExtendedGameState list) page" where
  "ConnectFourGame_w uncrush_parse schema_parse created get_computer_move place_piece stateParam =
     bind (computerTurn_w get_computer_move place_piece
             (loadState uncrush_parse schema_parse (initialState_w created) stateParam))
       (\<lambda>gameState.
          bind (forEach (getNextState_w place_piece gameState) (linkColumns_w gameState))
            (\<lambda>nextStates. ret (gameState, nextStates)))"

section \<open>The wire schema and the bridge\<close>

subsection \<open>Colour names\<close>

fun color_name :: "color \<Rightarrow> string" where
  "color_name red = ''red''"
| "color_name yellow = ''yellow''"

fun quality_name :: "quality \<Rightarrow> string" where
  "quality_name bad = ''bad''"
| "quality_name medium = ''medium''"
| "quality_name best = ''best''"

text \<open>
  \<^verbatim>\<open>s.charAt(0).toUpperCase() + s.slice(1)\<close>; on the empty string both parts are
  empty. Upper-casing is modelled on ASCII letters, which is all a colour name has.
\<close>

definition toUpperCase :: "char \<Rightarrow> char" where
  "toUpperCase c =
     (let n = (of_char c :: nat) in if 97 \<le> n \<and> n \<le> 122 then char_of (n - 32) else c)"

definition capitalize :: "string \<Rightarrow> string" where
  "capitalize s = (case s of [] \<Rightarrow> [] | c # cs \<Rightarrow> toUpperCase c # cs)"

subsection \<open>The bridge between the naming conventions\<close>

text \<open>
  \<^verbatim>\<open>
  function convertTsToWasmGameState(tsState: ExtendedGameState) {
    return {
      board: tsState.board.map((column) => column.map((cell) =>
        cell === null ? "Empty" : { Filled: cell.charAt(0).toUpperCase() + cell.slice(1) })),
      current_player: tsState.currentPlayer.charAt(0).toUpperCase() + tsState.currentPlayer.slice(1),
      is_game_over: tsState.isGameOver,
      winner: tsState.winner
        ? tsState.winner.charAt(0).toUpperCase() + tsState.winner.slice(1) : null,
      newestPieceColumn: tsState.newestPieceColumn,
      newestComputerPieceColumn: tsState.newestComputerPieceColumn,
      minimaxQuality: tsState.minimaxQuality,
    };
  }
  \<close>
\<close>

definition convertTsToWasmGameState :: "ExtendedGameState \<Rightarrow> WasmExtendedGameState" where
  "convertTsToWasmGameState tsState =
     \<lparr>board_w =
        map (\<lambda>column.
               map (\<lambda>cell. case cell of
                              None \<Rightarrow> Empty
                            | Some c \<Rightarrow> Filled (capitalize (color_name c)))
                 column)
          (board tsState),
      current_player = capitalize (color_name (currentPlayer tsState)),
      is_game_over = isGameOver tsState,
      winner_w =
        (case winner tsState of
           Some c \<Rightarrow> Value (capitalize (color_name c))
         | None \<Rightarrow> Null),
      newestPieceColumn_w = newestPieceColumn tsState,
      newestComputerPieceColumn_w = newestComputerPieceColumn tsState,
      minimaxQuality_w = minimaxQuality tsState\<rparr>"

subsection \<open>JSON documents and schema validation\<close>

text \<open>
  What \<^verbatim>\<open>JSON.stringify\<close> writes and \<^verbatim>\<open>JSON.parse\<close> reads, as a tree. An object is
  the list of its properties; a lookup takes the first property of a name. A number
  of a parsed document is finite or, for a token beyond the range of a double such
  as \<^verbatim>\<open>1e999\<close>, an infinity.
\<close>

datatype json =
    JNull
  | JBool bool
  | JNum number
  | JStr string
  | JArr "json list"
  | JObj "(string \<times> json) list"

text \<open>The schemas of \<^verbatim>\<open>zod\<close> used by the pages; \<open>None\<close> is a thrown \<^verbatim>\<open>ZodError\<close>.\<close>

fun z_boolean :: "json \<Rightarrow> bool option" where
  "z_boolean (JBool b) = Some b"
| "z_boolean j = None"

text \<open>
  \<^verbatim>\<open>z.number().nullable()\<close>: \<^verbatim>\<open>null\<close> or any number but \<^verbatim>\<open>NaN\<close>; the infinities are
  accepted.
\<close>

fun z_number_nullable :: "json \<Rightarrow> number option option" where
  "z_number_nullable JNull = Some None"
| "z_number_nullable (JNum n) = (if n = NaN then None else Some (Some n))"
| "z_number_nullable j = None"

fun z_array :: "(json \<Rightarrow> 'a option) \<Rightarrow> json \<Rightarrow> 'a list option" where
  "z_array item (JArr js) = those (map item js)"
| "z_array item j = None"

text \<open>A required property: a missing one is rejected.\<close>

definition required :: "(string \<times> json) list \<Rightarrow> string \<Rightarrow> (json \<Rightarrow> 'a option) \<Rightarrow> 'a option" where
  "required props name schema =
     (case map_of props name of None \<Rightarrow> None | Some j \<Rightarrow> schema j)"

text \<open>\<^verbatim>\<open>z.enum(["bad", "medium", "best"])\<close>\<close>

fun QualitySchema :: "json \<Rightarrow> quality option" where
  "QualitySchema (JStr s) =
     (if s = ''bad'' then Some bad
      else if s = ''medium'' then Some medium
      else if s = ''best'' then Some best
      else None)"
| "QualitySchema j = None"

text \<open>
  Modelled from the spec: the TypeScript \<^verbatim>\<open>GameStateSchema\<close>, declared in the engine's
  package and missing from the sources. Section 6: \<^verbatim>\<open>board\<close> is a sequence of columns
  of cells, each cell the empty marker (\<^verbatim>\<open>null\<close>) or a colour name;
  \<^verbatim>\<open>currentPlayer\<close> a colour name; \<^verbatim>\<open>isGameOver\<close> a boolean; \<^verbatim>\<open>winner\<close> a
  colour name or \<^verbatim>\<open>null\<close>.
\<close>

fun ColorSchema :: "json \<Rightarrow> color option" where
  "ColorSchema (JStr s) =
     (if s = ''red'' then Some red else if s = ''yellow'' then Some yellow else None)"
| "ColorSchema j = None"

fun CellSchema :: "json \<Rightarrow> color option option" where
  "CellSchema JNull = Some None"
| "CellSchema j = map_option Some (ColorSchema j)"

text \<open>
  \<^verbatim>\<open>ExtendedGameStateSchema = GameStateSchema.extend({newestPieceColumn:
  z.number().nullable(), newestComputerPieceColumn: z.number().nullable(),
  minimaxQuality: QualitySchema})\<close>, and its \<^verbatim>\<open>parse\<close>.
\<close>

fun ExtendedGameStateSchema :: "json \<Rightarrow> ExtendedGameState option" where
  "ExtendedGameStateSchema (JObj props) =
     (case required props ''board'' (z_array (z_array CellSchema)) of None \<Rightarrow> None | Some b \<Rightarrow>
      case required props ''currentPlayer'' ColorSchema of None \<Rightarrow> None | Some p \<Rightarrow>
      case required props ''isGameOver'' z_boolean of None \<Rightarrow> None | Some over \<Rightarrow>
      case required props ''winner'' CellSchema of None \<Rightarrow> None | Some w \<Rightarrow>
      case required props ''newestPieceColumn'' z_number_nullable of None \<Rightarrow> None | Some npc \<Rightarrow>
      case required props ''newestComputerPieceColumn'' z_number_nullable of None \<Rightarrow> None | Some ncpc \<Rightarrow>
      case required props ''minimaxQuality'' QualitySchema of None \<Rightarrow> None | Some q \<Rightarrow>
        Some \<lparr>board = b, currentPlayer = p, isGameOver = over, winner = w,
              newestPieceColumn = npc, newestComputerPieceColumn = ncpc,
              minimaxQuality = q\<rparr>)"
| "ExtendedGameStateSchema j = None"

text \<open>The document \<^verbatim>\<open>JSON.stringify\<close> writes for a state of the TypeScript variant.\<close>

definition cellJson :: "color option \<Rightarrow> json" where
  "cellJson cell = (case cell of None \<Rightarrow> JNull | Some c \<Rightarrow> JStr (color_name c))"

text \<open>
  \<^verbatim>\<open>JSON.stringify\<close> writes a finite number as a number and \<^verbatim>\<open>Infinity\<close>,
  \<^verbatim>\<open>-Infinity\<close> and \<^verbatim>\<open>NaN\<close> as \<^verbatim>\<open>null\<close>.
\<close>

definition numberJson :: "number option \<Rightarrow> json" where
  "numberJson n =
     (case n of
        None \<Rightarrow> JNull
      | Some (Finite x) \<Rightarrow> JNum (Finite x)
      | Some PosInfinity \<Rightarrow> JNull
      | Some NegInfinity \<Rightarrow> JNull
      | Some NaN \<Rightarrow> JNull)"

text \<open>
  A number field after it has been written and read back: a finite number and
  \<^verbatim>\<open>null\<close> are kept, a number that is not finite has become \<^verbatim>\<open>null\<close>.
\<close>

definition readBack :: "number option \<Rightarrow> number option" where
  "readBack n =
     (case n of
        None \<Rightarrow> None
      | Some (Finite x) \<Rightarrow> Some (Finite x)
      | Some PosInfinity \<Rightarrow> None
      | Some NegInfinity \<Rightarrow> None
      | Some NaN \<Rightarrow> None)"

definition stateJson :: "ExtendedGameState \<Rightarrow> json" where
  "stateJson s =
     JObj [(''board'', JArr (map (\<lambda>column. JArr (map cellJson column)) (board s))),
           (''currentPlayer'', JStr (color_name (currentPlayer s))),
           (''isGameOver'', JBool (isGameOver s)),
           (''winner'', cellJson (winner s)),
           (''newestPieceColumn'', numberJson (newestPieceColumn s)),
           (''newestComputerPieceColumn'', numberJson (newestComputerPieceColumn s)),
           (''minimaxQuality'', JStr (quality_name (minimaxQuality s)))]"

text \<open>
  The schema of the WASM page (quoted with the state above).
  \<^verbatim>\<open>z.enum(["Red", "Yellow"])\<close>:
\<close>

fun ColorSchema_w :: "json \<Rightarrow> string option" where
  "ColorSchema_w (JStr s) = (if s = ''Red'' \<or> s = ''Yellow'' then Some s else None)"
| "ColorSchema_w j = None"

text \<open>\<^verbatim>\<open>z.union([z.literal("Empty"), z.object({ Filled: z.enum(["Red", "Yellow"]) })])\<close>\<close>

fun CellSchema_w :: "json \<Rightarrow> wasm_cell option" where
  "CellSchema_w (JStr s) = (if s = ''Empty'' then Some Empty else None)"
| "CellSchema_w (JObj props) = map_option Filled (required props ''Filled'' ColorSchema_w)"
| "CellSchema_w j = None"

text \<open>\<^verbatim>\<open>z.enum(["Red", "Yellow"]).nullable().optional()\<close>, on a property that may be absent.\<close>

definition WinnerSchema_w :: "json option \<Rightarrow> string nullish option" where
  "WinnerSchema_w j =
     (case j of
        None \<Rightarrow> Some Undefined
      | Some JNull \<Rightarrow> Some Null
      | Some v \<Rightarrow> map_option Value (ColorSchema_w v))"

fun ExtendedGameStateSchema_w :: "json \<Rightarrow> WasmExtendedGameState option" where
  "ExtendedGameStateSchema_w (JObj props) =
     (case required props ''board'' (z_array (z_array CellSchema_w)) of None \<Rightarrow> None | Some b \<Rightarrow>
      case required props ''current_player'' ColorSchema_w of None \<Rightarrow> None | Some p \<Rightarrow>
      case required props ''is_game_over'' z_boolean of None \<Rightarrow> None | Some over \<Rightarrow>
      case WinnerSchema_w (map_of props ''winner'') of None \<Rightarrow> None | Some w \<Rightarrow>
      case required props ''newestPieceColumn'' z_number_nullable of None \<Rightarrow> None | Some npc \<Rightarrow>
      case required props ''newestComputerPieceColumn'' z_number_nullable of None \<Rightarrow> None | Some ncpc \<Rightarrow>
      case required props ''minimaxQuality'' QualitySchema of None \<Rightarrow> None | Some q \<Rightarrow>
        Some \<lparr>board_w = b, current_player = p, is_game_over = over, winner_w = w,
              newestPieceColumn_w = npc, newestComputerPieceColumn_w = ncpc,
              minimaxQuality_w = q\<rparr>)"
| "ExtendedGameStateSchema_w j = None"

text \<open>
  The document \<^verbatim>\<open>JSON.stringify\<close> writes for a state of the WASM variant: a property
  whose value is \<^verbatim>\<open>undefined\<close> is left out.
\<close>

definition cellJson_w :: "wasm_cell \<Rightarrow> json" where
  "cellJson_w cell = (case cell of Empty \<Rightarrow> JStr ''Empty'' | Filled c \<Rightarrow> JObj [(''Filled'', JStr c)])"

definition winnerJson_w :: "string nullish \<Rightarrow> (string \<times> json) list" where
  "winnerJson_w w =
     (case w of
        Undefined \<Rightarrow> []
      | Null \<Rightarrow> [(''winner'', JNull)]
      | Value c \<Rightarrow> [(''winner'', JStr c)])"

definition stateJson_w :: "WasmExtendedGameState \<Rightarrow> json" where
  "stateJson_w s =
     JObj ([(''board'', JArr (map (\<lambda>column. JArr (map cellJson_w column)) (board_w s))),
            (''current_player'', JStr (current_player s)),
            (''is_game_over'', JBool (is_game_over s))]
           @ winnerJson_w (winner_w s)
           @ [(''newestPieceColumn'', numberJson (newestPieceColumn_w s)),
              (''newestComputerPieceColumn'', numberJson (newestComputerPieceColumn_w s)),
              (''minimaxQuality'', JStr (quality_name (minimaxQuality_w s)))])"

text \<open>A state of the WASM variant is valid when its colour names are the schema's.\<close>

definition colorName_w :: "string \<Rightarrow> bool" where
  "colorName_w c = (c = ''Red'' \<or> c = ''Yellow'')"

definition validCell_w :: "wasm_cell \<Rightarrow> bool" where
  "validCell_w cell = (case cell of Empty \<Rightarrow> True | Filled c \<Rightarrow> colorName_w c)"

definition validState_w :: "WasmExtendedGameState \<Rightarrow> bool" where
  "validState_w s =
     (list_all (list_all validCell_w) (board_w s) \<and> colorName_w (current_player s) \<and>
      (case winner_w s of Value c \<Rightarrow> colorName_w c | Null \<Rightarrow> True | Undefined \<Rightarrow> True))"

text \<open>
  The link of a page carries \<^verbatim>\<open>JSONCrush.crush(JSON.stringify(nextState))\<close>; the next
  request reads it back with \<^verbatim>\<open>JSON.parse(JSONCrush.uncrush(...))\<close> and the schema.
  The two text codecs are library code and parameters here, over any type of text.
\<close>

definition encodeState :: "(json \<Rightarrow> 'text) \<Rightarrow> ExtendedGameState \<Rightarrow> 'text" where
  "encodeState crush_stringify s = crush_stringify (stateJson s)"

definition decodeState :: "('text \<Rightarrow> json option) \<Rightarrow> 'text \<Rightarrow> ExtendedGameState option" where
  "decodeState uncrush_parse text =
     (case uncrush_parse text of None \<Rightarrow> None | Some j \<Rightarrow> ExtendedGameStateSchema j)"

definition encodeState_w :: "(json \<Rightarrow> 'text) \<Rightarrow> WasmExtendedGameState \<Rightarrow> 'text" where
  "encodeState_w crush_stringify s = crush_stringify (stateJson_w s)"

definition decodeState_w :: "('text \<Rightarrow> json option) \<Rightarrow> 'text \<Rightarrow> WasmExtendedGameState option" where
  "decodeState_w uncrush_parse text =
     (case uncrush_parse text of None \<Rightarrow> None | Some j \<Rightarrow> ExtendedGameStateSchema_w j)"

section \<open>The engine\<close>

text \<open>
  The pages import the engine from \<^verbatim>\<open>@connect-four/utils/src/ConnectFour\<close>, a package
  of the repository whose source is not among the files at hand. The definitions of
  this section are therefore written from sections 3, 4, 6 and 7 of the
  specification. Where the specification leaves a choice open (the designated first
  colour, the heuristic, the search depths) the choice is a parameter.
\<close>

subsection \<open>Board\<close>

definition COLS :: nat where
  "COLS = 7"

definition ROWS :: nat where
  "ROWS = 6"

text \<open>
  Modelled from the spec: \<^verbatim>\<open>createInitialState\<close>, missing from the sources.
  "Empty 7x6 board, first player = the designated starting Color, not over, no
  winner"; the designated colour is the parameter \<open>first\<close>.
\<close>

definition createInitialState :: "color \<Rightarrow> GameState" where
  "createInitialState first =
     \<lparr>board = replicate COLS (replicate ROWS None),
      currentPlayer = first, isGameOver = False, winner = None\<rparr>"

definition other :: "color \<Rightarrow> color" where
  "other p = (case p of red \<Rightarrow> yellow | yellow \<Rightarrow> red)"

text \<open>
  Modelled from the spec: the landing row of a column, missing from the sources.
  "The lowest Empty row index (the landing row under gravity)", index 0 being the
  lowest cell; \<open>None\<close> when the column has no Empty cell.
\<close>

fun lowestEmpty :: "color option list \<Rightarrow> nat option" where
  "lowestEmpty [] = None"
| "lowestEmpty (cell # cells) =
     (if cell = None then Some 0 else map_option Suc (lowestEmpty cells))"

text \<open>
  The cell at integer coordinates (column, row); a position off the board holds no
  piece, so a walk stops at the edge.
\<close>

definition cellAt :: "color option list list \<Rightarrow> int \<Rightarrow> int \<Rightarrow> color option" where
  "cellAt b x y =
     (if 0 \<le> x \<and> x < int COLS \<and> 0 \<le> y \<and> y < int ROWS then b ! nat x ! nat y else None)"

subsection \<open>Win and draw detector\<close>

text \<open>
  Modelled from the spec: the Win/Draw Detector (section 4.3), missing from the
  sources. "For each of the four axes, walk outward from the placed cell in both
  directions along the axis, counting consecutive cells of the same color as the
  placed piece (including the placed piece itself). If any axis's count reaches 4 or
  more, report a win." A walk in one direction takes at most \<open>n\<close> steps; it is run
  with six, which from a cell of the board lead off a board of seven columns.
\<close>

fun walk :: "color option list list \<Rightarrow> color \<Rightarrow> int \<Rightarrow> int \<Rightarrow> int \<Rightarrow> int \<Rightarrow> nat \<Rightarrow> nat" where
  "walk b p x y dx dy 0 = 0"
| "walk b p x y dx dy (Suc n) =
     (if cellAt b (x + dx) (y + dy) = Some p
      then Suc (walk b p (x + dx) (y + dy) dx dy n) else 0)"

definition axisCount :: "color option list list \<Rightarrow> color \<Rightarrow> int \<Rightarrow> int \<Rightarrow> int \<times> int \<Rightarrow> nat" where
  "axisCount b p x y axis =
     (case axis of (dx, dy) \<Rightarrow>
        1 + walk b p x y dx dy 6 + walk b p x y (- dx) (- dy) 6)"

text \<open>Horizontal, vertical, diagonal ascending, diagonal descending.\<close>

definition axes :: "(int \<times> int) list" where
  "axes = [(1, 0), (0, 1), (1, 1), (1, - 1)]"

definition isWin :: "color option list list \<Rightarrow> color \<Rightarrow> int \<Rightarrow> int \<Rightarrow> bool" where
  "isWin b p x y = list_ex (\<lambda>axis. 4 \<le> axisCount b p x y axis) axes"

definition boardFull :: "color option list list \<Rightarrow> bool" where
  "boardFull b = list_all (\<lambda>column. None \<notin> set column) b"

subsection \<open>State transition\<close>

text \<open>
  Modelled from the spec: \<^verbatim>\<open>applyMove\<close> (the pages' \<^verbatim>\<open>ConnectFour.placePiece\<close>),
  missing from the sources. Section 4.2: fails with GameAlreadyOver if the state is
  over, with InvalidColumn if the index is outside [0, 6], with ColumnFull if the
  target column has no Empty cell; otherwise places a piece of the current player
  at the landing row, runs the detector anchored at the placed cell, and flips the
  current player if the game is not over.
\<close>

definition applyMove :: "GameState \<Rightarrow> int \<Rightarrow> error + GameState" where
  "applyMove state column =
     (if isGameOver state then Inl GameAlreadyOver
      else if column < 0 \<or> 6 < column then Inl InvalidColumn
      else
        (case lowestEmpty (board state ! nat column) of
           None \<Rightarrow> Inl ColumnFull
         | Some row \<Rightarrow>
             (let p = currentPlayer state;
                  b = (board state)[nat column := (board state ! nat column)[row := Some p]]
              in if isWin b p column (int row)
                 then Inr \<lparr>board = b, currentPlayer = p, isGameOver = True, winner = Some p\<rparr>
                 else if boardFull b
                 then Inr \<lparr>board = b, currentPlayer = p, isGameOver = True, winner = None\<rparr>
                 else Inr \<lparr>board = b, currentPlayer = other p, isGameOver = False,
                           winner = None\<rparr>)))"

text \<open>A sequence of moves, applied in order; the first failure ends it.\<close>

fun applyMoves :: "GameState \<Rightarrow> int list \<Rightarrow> error + GameState" where
  "applyMoves state [] = Inr state"
| "applyMoves state (column # columns) =
     (case applyMove state column of
        Inl e \<Rightarrow> Inl e
      | Inr state' \<Rightarrow> applyMoves state' columns)"

text \<open>
  Four in a row as the specification words it, by a scan of the whole board: four
  contiguous cells of one colour on some axis, starting at any cell.
\<close>

definition fourAt :: "color option list list \<Rightarrow> color \<Rightarrow> int \<Rightarrow> int \<Rightarrow> int \<times> int \<Rightarrow> bool" where
  "fourAt b p x y axis =
     (case axis of (dx, dy) \<Rightarrow>
        list_all (\<lambda>i. cellAt b (x + i * dx) (y + i * dy) = Some p) [0, 1, 2, 3])"

definition hasFour :: "color option list list \<Rightarrow> color \<Rightarrow> bool" where
  "hasFour b p =
     list_ex (\<lambda>x. list_ex (\<lambda>y. list_ex (\<lambda>axis. fourAt b p (int x) (int y) axis) axes)
                    [0 ..< ROWS])
       [0 ..< COLS]"

text \<open>The shape of a board: seven columns of six cells.\<close>

definition wellFormed :: "color option list list \<Rightarrow> bool" where
  "wellFormed b = (length b = COLS \<and> list_all (\<lambda>column. length column = ROWS) b)"

text \<open>
  What holds of every state a game reaches: the board has its shape, and while the
  game is not over no colour has four in a row and the board is not full.
\<close>

definition gameInvariant :: "GameState \<Rightarrow> bool" where
  "gameInvariant state =
     (wellFormed (board state) \<and>
      (isGameOver state \<or>
       (\<not> hasFour (board state) red \<and> \<not> hasFour (board state) yellow \<and>
        \<not> boardFull (board state))))"

subsection \<open>Move search\<close>

text \<open>
  Scores are integers, with the two infinities a search starts its window and its
  running best from.
\<close>

datatype score = NegInf | Fin int | PosInf

instantiation score :: linorder
begin

fun less_eq_score :: "score \<Rightarrow> score \<Rightarrow> bool" where
  "less_eq_score NegInf v = True"
| "less_eq_score (Fin a) NegInf = False"
| "less_eq_score (Fin a) (Fin b) = (a \<le> b)"
| "less_eq_score (Fin a) PosInf = True"
| "less_eq_score PosInf NegInf = False"
| "less_eq_score PosInf (Fin b) = False"
| "less_eq_score PosInf PosInf = True"

definition less_score :: "score \<Rightarrow> score \<Rightarrow> bool" where
  "less_score u v = (u \<le> v \<and> \<not> v \<le> u)"

instance
proof
  fix u v w :: score
  show "(u < v) = (u \<le> v \<and> \<not> v \<le> u)"
    by (simp add: less_score_def)
  show "u \<le> u"
    by (cases u) simp_all
  show "u \<le> v \<Longrightarrow> v \<le> w \<Longrightarrow> u \<le> w"
    by (cases u; cases v; cases w) simp_all
  show "u \<le> v \<Longrightarrow> v \<le> u \<Longrightarrow> u = v"
    by (cases u; cases v) simp_all
  show "u \<le> v \<or> v \<le> u"
    by (cases u; cases v) auto
qed

end

text \<open>
  Modelled from the spec: the move search (section 4.4), missing from the sources.
  Columns are searched from the centre outward. A column is legal when it has an
  Empty cell.
\<close>

definition searchOrder :: "int list" where
  "searchOrder = [3, 2, 4, 1, 5, 0, 6]"

definition hasRoom :: "color option list list \<Rightarrow> int \<Rightarrow> bool" where
  "hasRoom b column = (None \<in> set (b ! nat column))"

definition legalMoves :: "GameState \<Rightarrow> int list" where
  "legalMoves state = filter (hasRoom (board state)) searchOrder"

text \<open>The successor of a state for each legal column, in search order.\<close>

definition successors :: "GameState \<Rightarrow> (int \<times> GameState) list" where
  "successors state =
     concat (map (\<lambda>column. case applyMove state column of
                              Inl e \<Rightarrow> []
                            | Inr state' \<Rightarrow> [(column, state')])
               (legalMoves state))"

definition children :: "GameState \<Rightarrow> GameState list" where
  "children state = map snd (successors state)"

text \<open>
  "A terminal node scores: large positive constant for an engine win, large negative
  constant for an opponent win (scaled so that shallower wins/losses are
  preferred/avoided over deeper ones, e.g. subtract ply depth from the magnitude),
  zero for a draw."
\<close>

definition winScore :: int where
  "winScore = 1000000"

definition terminalScore :: "color \<Rightarrow> nat \<Rightarrow> GameState \<Rightarrow> score" where
  "terminalScore me ply state =
     (case winner state of
        None \<Rightarrow> Fin 0
      | Some w \<Rightarrow> if w = me then Fin (winScore - int ply) else Fin (- (winScore - int ply)))"

text \<open>
  "A position with an immediate win for the side to move returns a maximal score at
  that ply without recursing further; an immediate loss next ply returns a minimal
  score": the score of the winning successor, one ply down.
\<close>

definition immediateWin :: "GameState \<Rightarrow> bool" where
  "immediateWin state = list_ex (\<lambda>state'. winner state' = Some (currentPlayer state)) (children state)"

definition shortcutScore :: "color \<Rightarrow> nat \<Rightarrow> GameState \<Rightarrow> score" where
  "shortcutScore me ply state =
     (if currentPlayer state = me then Fin (winScore - int (Suc ply))
      else Fin (- (winScore - int (Suc ply))))"

text \<open>
  Fixed-depth minimax from the point of view of the engine's colour \<open>me\<close>, with the
  heuristic \<open>h\<close> at the depth limit. \<open>sc\<close> says whether the terminal shortcuts are
  taken. The loops over the successors keep the running best.
\<close>

function (sequential) minimax :: "bool \<Rightarrow> (GameState \<Rightarrow> color \<Rightarrow> int) \<Rightarrow> color \<Rightarrow> nat \<Rightarrow> nat \<Rightarrow> GameState \<Rightarrow> score"
and minimaxMax :: "bool \<Rightarrow> (GameState \<Rightarrow> color \<Rightarrow> int) \<Rightarrow> color \<Rightarrow> nat \<Rightarrow> nat \<Rightarrow> score \<Rightarrow> GameState list \<Rightarrow> score"
and minimaxMin :: "bool \<Rightarrow> (GameState \<Rightarrow> color \<Rightarrow> int) \<Rightarrow> color \<Rightarrow> nat \<Rightarrow> nat \<Rightarrow> score \<Rightarrow> GameState list \<Rightarrow> score"
where
  "minimax sc h me 0 ply state =
     (if isGameOver state then terminalScore me ply state else Fin (h state me))"
| "minimax sc h me (Suc depth) ply state =
     (if isGameOver state then terminalScore me ply state
      else if sc \<and> immediateWin state then shortcutScore me ply state
      else if currentPlayer state = me
      then minimaxMax sc h me depth (Suc ply) NegInf (children state)
      else minimaxMin sc h me depth (Suc ply) PosInf (children state))"
| "minimaxMax sc h me depth ply bestScore [] = bestScore"
| "minimaxMax sc h me depth ply bestScore (child # rest) =
     minimaxMax sc h me depth ply (max bestScore (minimax sc h me depth ply child)) rest"
| "minimaxMin sc h me depth ply bestScore [] = bestScore"
| "minimaxMin sc h me depth ply bestScore (child # rest) =
     minimaxMin sc h me depth ply (min bestScore (minimax sc h me depth ply child)) rest"
  by pat_completeness auto

termination
  by (relation "measures
        [\<lambda>x. case x of Inl (sc, h, me, depth, r) \<Rightarrow> depth
                      | Inr (Inl (sc, h, me, depth, r)) \<Rightarrow> depth
                      | Inr (Inr (sc, h, me, depth, r)) \<Rightarrow> depth,
         \<lambda>x. case x of Inl r \<Rightarrow> 0
                      | Inr (Inl (sc, h, me, depth, ply, bestScore, cs)) \<Rightarrow> Suc (length cs)
                      | Inr (Inr (sc, h, me, depth, ply, bestScore, cs)) \<Rightarrow> Suc (length cs)]")
     auto

text \<open>
  The same search with an alpha-beta window: a loop stops as soon as the window is
  empty.
\<close>

function (sequential) alphabeta :: "(GameState \<Rightarrow> color \<Rightarrow> int) \<Rightarrow> color \<Rightarrow> nat \<Rightarrow> nat \<Rightarrow> score \<Rightarrow> score \<Rightarrow> GameState \<Rightarrow> score"
and alphabetaMax :: "(GameState \<Rightarrow> color \<Rightarrow> int) \<Rightarrow> color \<Rightarrow> nat \<Rightarrow> nat \<Rightarrow> score \<Rightarrow> score \<Rightarrow> score \<Rightarrow> GameState list \<Rightarrow> score"
and alphabetaMin :: "(GameState \<Rightarrow> color \<Rightarrow> int) \<Rightarrow> color \<Rightarrow> nat \<Rightarrow> nat \<Rightarrow> score \<Rightarrow> score \<Rightarrow> score \<Rightarrow> GameState list \<Rightarrow> score"
where
  "alphabeta h me 0 ply alpha beta state =
     (if isGameOver state then terminalScore me ply state else Fin (h state me))"
| "alphabeta h me (Suc depth) ply alpha beta state =
     (if isGameOver state then terminalScore me ply state
      else if immediateWin state then shortcutScore me ply state
      else if currentPlayer state = me
      then alphabetaMax h me depth (Suc ply) alpha beta NegInf (children state)
      else alphabetaMin h me depth (Suc ply) alpha beta PosInf (children state))"
| "alphabetaMax h me depth ply alpha beta bestScore [] = bestScore"
| "alphabetaMax h me depth ply alpha beta bestScore (child # rest) =
     (let v = alphabeta h me depth ply alpha beta child;
          bestScore' = max bestScore v;
          alpha' = max alpha v
      in if beta \<le> alpha' then bestScore'
         else alphabetaMax h me depth ply alpha' beta bestScore' rest)"
| "alphabetaMin h me depth ply alpha beta bestScore [] = bestScore"
| "alphabetaMin h me depth ply alpha beta bestScore (child # rest) =
     (let v = alphabeta h me depth ply alpha beta child;
          bestScore' = min bestScore v;
          beta' = min beta v
      in if beta' \<le> alpha then bestScore'
         else alphabetaMin h me depth ply alpha beta' bestScore' rest)"
  by pat_completeness auto

termination
  by (relation "measures
        [\<lambda>x. case x of Inl (h, me, depth, r) \<Rightarrow> depth
                      | Inr (Inl (h, me, depth, r)) \<Rightarrow> depth
                      | Inr (Inr (h, me, depth, r)) \<Rightarrow> depth,
         \<lambda>x. case x of Inl r \<Rightarrow> 0
                      | Inr (Inl (h, me, depth, ply, alpha, beta, bestScore, cs)) \<Rightarrow> Suc (length cs)
                      | Inr (Inr (h, me, depth, ply, alpha, beta, bestScore, cs)) \<Rightarrow> Suc (length cs)]")
     auto

text \<open>
  The root keeps the bestScore column with its score; a later column replaces it only
  with a strictly better score, so among equal scores the first in search order
  wins. The root of the alpha-beta search raises alpha to the bestScore score so far.
\<close>

fun minimaxRoot :: "bool \<Rightarrow> (GameState \<Rightarrow> color \<Rightarrow> int) \<Rightarrow> color \<Rightarrow> nat \<Rightarrow> score \<Rightarrow> int \<Rightarrow> (int \<times> GameState) list \<Rightarrow> int" where
  "minimaxRoot sc h me depth bestScore bestMove [] = bestMove"
| "minimaxRoot sc h me depth bestScore bestMove ((column, child) # rest) =
     (let v = minimax sc h me depth 1 child
      in if bestScore < v then minimaxRoot sc h me depth v column rest
         else minimaxRoot sc h me depth bestScore bestMove rest)"

fun alphabetaRoot :: "(GameState \<Rightarrow> color \<Rightarrow> int) \<Rightarrow> color \<Rightarrow> nat \<Rightarrow> score \<Rightarrow> int \<Rightarrow> (int \<times> GameState) list \<Rightarrow> int" where
  "alphabetaRoot h me depth bestScore bestMove [] = bestMove"
| "alphabetaRoot h me depth bestScore bestMove ((column, child) # rest) =
     (let v = alphabeta h me depth 1 bestScore PosInf child
      in if bestScore < v then alphabetaRoot h me depth v column rest
         else alphabetaRoot h me depth bestScore bestMove rest)"

definition minimaxMove :: "bool \<Rightarrow> (GameState \<Rightarrow> color \<Rightarrow> int) \<Rightarrow> nat \<Rightarrow> GameState \<Rightarrow> int \<Rightarrow> int" where
  "minimaxMove sc h depth state firstLegal =
     minimaxRoot sc h (currentPlayer state) depth NegInf firstLegal (successors state)"

definition alphabetaMove :: "(GameState \<Rightarrow> color \<Rightarrow> int) \<Rightarrow> nat \<Rightarrow> GameState \<Rightarrow> int \<Rightarrow> int" where
  "alphabetaMove h depth state firstLegal =
     alphabetaRoot h (currentPlayer state) depth NegInf firstLegal (successors state)"

text \<open>
  Low quality: "take an immediately winning move if one exists for the engine's own
  color; otherwise block an opponent's immediately winning reply if one exists;
  otherwise choose among remaining legal columns by a fixed, low-cost rule
  (center-biased)": the first legal column in search order.
\<close>

definition winsAt :: "GameState \<Rightarrow> color \<Rightarrow> int \<Rightarrow> bool" where
  "winsAt state p column =
     (case applyMove (state\<lparr>currentPlayer := p\<rparr>) column of
        Inl e \<Rightarrow> False
      | Inr state' \<Rightarrow> winner state' = Some p)"

definition lowMove :: "GameState \<Rightarrow> int \<Rightarrow> int" where
  "lowMove state firstLegal =
     (case find (winsAt state (currentPlayer state)) (legalMoves state) of
        Some column \<Rightarrow> column
      | None \<Rightarrow>
          (case find (winsAt state (other (currentPlayer state))) (legalMoves state) of
             Some column \<Rightarrow> column
           | None \<Rightarrow> firstLegal))"

text \<open>
  The parts of the search the specification leaves open: the heuristic (a state and
  the engine's colour to a score) and the two depths.
\<close>

record searchParams =
  heuristic :: "GameState \<Rightarrow> color \<Rightarrow> int"
  mediumDepth :: nat
  highDepth :: nat

text \<open>
  Modelled from the spec: \<^verbatim>\<open>chooseMove\<close> (the pages' \<^verbatim>\<open>ConnectFour.getComputerMove\<close>),
  missing from the sources. "Fails with GameAlreadyOver if the state is terminal, and
  with NoLegalMoves if the board is full"; Low is the rule above, Medium is minimax
  without pruning, High is alpha-beta with the terminal shortcuts.
\<close>

definition chooseMove :: "searchParams \<Rightarrow> GameState \<Rightarrow> quality \<Rightarrow> error + int" where
  "chooseMove params state q =
     (if isGameOver state then Inl GameAlreadyOver
      else
        (case legalMoves state of
           [] \<Rightarrow> Inl NoLegalMoves
         | firstLegal # rest \<Rightarrow>
             (case q of
                bad \<Rightarrow> Inr (lowMove state firstLegal)
              | medium \<Rightarrow>
                  Inr (minimaxMove False (heuristic params) (mediumDepth params) state firstLegal)
              | best \<Rightarrow>
                  Inr (alphabetaMove (heuristic params) (highDepth params) state firstLegal))))"

text \<open>
  The reference for the pruned search: \<^verbatim>\<open>chooseMove\<close> at High quality with unpruned
  minimax in place of alpha-beta, at the same depth, with the same heuristic, the
  same terminal scores and shortcuts and the same search order.
\<close>

definition chooseMoveUnpruned :: "searchParams \<Rightarrow> GameState \<Rightarrow> error + int" where
  "chooseMoveUnpruned params state =
     (if isGameOver state then Inl GameAlreadyOver
      else
        (case legalMoves state of
           [] \<Rightarrow> Inl NoLegalMoves
         | firstLegal # rest \<Rightarrow>
             Inr (minimaxMove True (heuristic params) (highDepth params) state firstLegal)))"

text \<open>
  What a search with the window from \<open>alpha\<close> to \<open>beta\<close> promises of its result \<open>v\<close>
  against the minimax value \<open>m\<close>: at or below \<open>alpha\<close> it is an upper bound of \<open>m\<close>,
  inside the window it is \<open>m\<close>, at or above \<open>beta\<close> it is a lower bound of \<open>m\<close>.
\<close>

definition boundsValue :: "score \<Rightarrow> score \<Rightarrow> score \<Rightarrow> score \<Rightarrow> bool" where
  "boundsValue alpha beta v m =
     ((v \<le> alpha \<longrightarrow> m \<le> v) \<and> (alpha < v \<and> v < beta \<longrightarrow> v = m) \<and>
      (beta \<le> v \<longrightarrow> v \<le> m))"

section \<open>Example states\<close>

text \<open>Concrete states and parameters, used to instantiate the theorems below.\<close>

definition exampleParams :: searchParams where
  "exampleParams = \<lparr>heuristic = (\<lambda>state me. 0), mediumDepth = 2, highDepth = 2\<rparr>"

text \<open>After red has played column 3: yellow, the computer, is to move.\<close>

definition yellowToMove :: ExtendedGameState where
  "yellowToMove =
     \<lparr>board = [[None, None, None, None, None, None],
                [None, None, None, None, None, None],
                [None, None, None, None, None, None],
                [Some red, None, None, None, None, None],
                [None, None, None, None, None, None],
                [None, None, None, None, None, None],
                [None, None, None, None, None, None]],
      currentPlayer = yellow, isGameOver = False, winner = None,
      newestPieceColumn = Some (Finite 3), newestComputerPieceColumn = None,
      minimaxQuality = bad\<rparr>"

text \<open>
  The same state with \<^verbatim>\<open>Infinity\<close> as its newest column: a state the schema accepts,
  as a URL with the number \<^verbatim>\<open>1e999\<close> gives.
\<close>

definition unboundedColumnState :: ExtendedGameState where
  "unboundedColumnState = yellowToMove\<lparr>newestPieceColumn := Some PosInfinity\<rparr>"

text \<open>After the moves 0, 0, 1, 1, 2, 2, 3 with red first: red has won.\<close>

definition wonState :: ExtendedGameState where
  "wonState =
     \<lparr>board = [[Some red, Some yellow, None, None, None, None],
                [Some red, Some yellow, None, None, None, None],
                [Some red, Some yellow, None, None, None, None],
                [Some red, None, None, None, None, None],
                [None, None, None, None, None, None],
                [None, None, None, None, None, None],
                [None, None, None, None, None, None]],
      currentPlayer = red, isGameOver = True, winner = Some red,
      newestPieceColumn = Some (Finite 3), newestComputerPieceColumn = Some (Finite 2),
      minimaxQuality = best\<rparr>"

text \<open>After the moves 0, 0, 1, 1, 2, 2 with red first: red wins with column 3.\<close>

definition beforeWin :: GameState where
  "beforeWin =
     \<lparr>board = [[Some red, Some yellow, None, None, None, None],
                [Some red, Some yellow, None, None, None, None],
                [Some red, Some yellow, None, None, None, None],
                [None, None, None, None, None, None],
                [None, None, None, None, None, None],
                [None, None, None, None, None, None],
                [None, None, None, None, None, None]],
      currentPlayer = red, isGameOver = False, winner = None\<rparr>"

text \<open>After the moves 0, 0, 0, 0, 0, 0 with red first: column 0 is full.\<close>

definition columnFullState :: GameState where
  "columnFullState =
     \<lparr>board = [[Some red, Some yellow, Some red, Some yellow, Some red, Some yellow],
                [None, None, None, None, None, None],
                [None, None, None, None, None, None],
                [None, None, None, None, None, None],
                [None, None, None, None, None, None],
                [None, None, None, None, None, None],
                [None, None, None, None, None, None]],
      currentPlayer = red, isGameOver = False, winner = None\<rparr>"

text \<open>A state that is not over although no column has room; no game reaches it.\<close>

definition noRoomState :: GameState where
  "noRoomState =
     \<lparr>board = replicate 7 [Some red, Some yellow, Some red, Some yellow, Some red, Some yellow],
      currentPlayer = red, isGameOver = False, winner = None\<rparr>"

text \<open>The same two states in the WASM variant.\<close>

definition yellowToMove_w :: WasmExtendedGameState where
  "yellowToMove_w =
     \<lparr>board_w = [[Empty, Empty, Empty, Empty, Empty, Empty],
                  [Empty, Empty, Empty, Empty, Empty, Empty],
                  [Empty, Empty, Empty, Empty, Empty, Empty],
                  [Filled ''Red'', Empty, Empty, Empty, Empty, Empty],
                  [Empty, Empty, Empty, Empty, Empty, Empty],
                  [Empty, Empty, Empty, Empty, Empty, Empty],
                  [Empty, Empty, Empty, Empty, Empty, Empty]],
      current_player = ''Yellow'', is_game_over = False, winner_w = Undefined,
      newestPieceColumn_w = Some (Finite 3), newestComputerPieceColumn_w = None,
      minimaxQuality_w = bad\<rparr>"

definition wonState_w :: WasmExtendedGameState where
  "wonState_w =
     \<lparr>board_w = [[Filled ''Red'', Filled ''Yellow'', Empty, Empty, Empty, Empty],
                  [Filled ''Red'', Filled ''Yellow'', Empty, Empty, Empty, Empty],
                  [Filled ''Red'', Filled ''Yellow'', Empty, Empty, Empty, Empty],
                  [Filled ''Red'', Empty, Empty, Empty, Empty, Empty],
                  [Empty, Empty, Empty, Empty, Empty, Empty],
                  [Empty, Empty, Empty, Empty, Empty, Empty],
                  [Empty, Empty, Empty, Empty, Empty, Empty]],
      current_player = ''Red'', is_game_over = True, winner_w = Value ''Red'',
      newestPieceColumn_w = Some (Finite 3), newestComputerPieceColumn_w = Some (Finite 2),
      minimaxQuality_w = best\<rparr>"

text \<open>
  A stand-in for the Rust engine, whose source is outside the repository's
  TypeScript: it answers column 4 and puts a yellow piece at the bottom of column 4.
\<close>

definition standInMove :: "WasmGameState \<Rightarrow> quality \<Rightarrow> error + int" where
  "standInMove state q = Inr 4"

definition standInPlace :: "WasmGameState \<Rightarrow> int \<Rightarrow> error + WasmGameState" where
  "standInPlace state column =
     Inr (state\<lparr>board_w := (board_w state)[nat column := (board_w state ! nat column)[0 := Filled ''Yellow'']],
                 current_player := ''Red''\<rparr>)"

text \<open>
  A stand-in for \<^verbatim>\<open>JSON.parse\<close> after \<^verbatim>\<open>JSONCrush.uncrush\<close>: it reads the text
  \<^verbatim>\<open>null\<close> and throws on any other.
\<close>

definition exampleDecode :: "string \<Rightarrow> json option" where
  "exampleDecode text = (if text = ''null'' then Some JNull else None)"

section \<open>The wire schema\<close>

lemma those_map_Some:
  "(\<And>x. x \<in> set xs \<Longrightarrow> item (enc x) = Some x) \<Longrightarrow> those (map (\<lambda>x. item (enc x)) xs) = Some xs"
  by (induction xs) simp_all

lemma z_array_map:
  "(\<And>x. x \<in> set xs \<Longrightarrow> item (enc x) = Some x) \<Longrightarrow> z_array item (JArr (map enc xs)) = Some xs"
  by (simp add: those_map_Some comp_def)

lemma ColorSchema_name: "ColorSchema (JStr (color_name c)) = Some c"
  by (cases c) simp_all

lemma CellSchema_cellJson: "CellSchema (cellJson cell) = Some cell"
proof (cases cell)
  case None
  then show ?thesis by (simp add: cellJson_def)
next
  case (Some c)
  then show ?thesis by (cases c) (simp_all add: cellJson_def)
qed

lemma QualitySchema_name: "QualitySchema (JStr (quality_name q)) = Some q"
  by (cases q) simp_all

lemma z_number_nullable_numberJson: "z_number_nullable (numberJson n) = Some (readBack n)"
proof (cases n)
  case None
  then show ?thesis by (simp add: numberJson_def readBack_def)
next
  case (Some k)
  then show ?thesis by (cases k) (simp_all add: numberJson_def readBack_def)
qed

lemma board_round_trip:
  "z_array (z_array CellSchema) (JArr (map (\<lambda>column. JArr (map cellJson column)) b)) = Some b"
  by (intro z_array_map CellSchema_cellJson)

lemma schema_reads_stateJson:
  "ExtendedGameStateSchema (stateJson s) =
     Some \<lparr>board = board s, currentPlayer = currentPlayer s, isGameOver = isGameOver s,
           winner = winner s, newestPieceColumn = readBack (newestPieceColumn s),
           newestComputerPieceColumn = readBack (newestComputerPieceColumn s),
           minimaxQuality = minimaxQuality s\<rparr>"
proof -
  define props where "props =
     [(''board'', JArr (map (\<lambda>column. JArr (map cellJson column)) (board s))),
      (''currentPlayer'', JStr (color_name (currentPlayer s))),
      (''isGameOver'', JBool (isGameOver s)),
      (''winner'', cellJson (winner s)),
      (''newestPieceColumn'', numberJson (newestPieceColumn s)),
      (''newestComputerPieceColumn'', numberJson (newestComputerPieceColumn s)),
      (''minimaxQuality'', JStr (quality_name (minimaxQuality s)))]"
  have 1: "required props ''board'' (z_array (z_array CellSchema)) = Some (board s)"
    unfolding props_def required_def by (simp add: board_round_trip del: z_array.simps)
  have 2: "required props ''currentPlayer'' ColorSchema = Some (currentPlayer s)"
    unfolding props_def required_def by (simp add: ColorSchema_name del: ColorSchema.simps)
  have 3: "required props ''isGameOver'' z_boolean = Some (isGameOver s)"
    unfolding props_def required_def by simp
  have 4: "required props ''winner'' CellSchema = Some (winner s)"
    unfolding props_def required_def by (simp add: CellSchema_cellJson)
  have 5: "required props ''newestPieceColumn'' z_number_nullable =
             Some (readBack (newestPieceColumn s))"
    unfolding props_def required_def by (simp add: z_number_nullable_numberJson)
  have 6: "required props ''newestComputerPieceColumn'' z_number_nullable =
             Some (readBack (newestComputerPieceColumn s))"
    unfolding props_def required_def by (simp add: z_number_nullable_numberJson)
  have 7: "required props ''minimaxQuality'' QualitySchema = Some (minimaxQuality s)"
    unfolding props_def required_def by (simp add: QualitySchema_name del: QualitySchema.simps)
  have "ExtendedGameStateSchema (JObj props) =
     Some \<lparr>board = board s, currentPlayer = currentPlayer s, isGameOver = isGameOver s,
           winner = winner s, newestPieceColumn = readBack (newestPieceColumn s),
           newestComputerPieceColumn = readBack (newestComputerPieceColumn s),
           minimaxQuality = minimaxQuality s\<rparr>"
    by (simp add: 1 2 3 4 5 6 7)
  then show ?thesis
    by (simp add: stateJson_def props_def)
qed

lemma readBack_finite:
  "readBack None = None" "readBack (Some (Finite x)) = Some (Finite x)"
  by (simp_all add: readBack_def)

lemma schema_accepts_stateJson:
  assumes "readBack (newestPieceColumn s) = newestPieceColumn s"
    and "readBack (newestComputerPieceColumn s) = newestComputerPieceColumn s"
  shows "ExtendedGameStateSchema (stateJson s) = Some s"
  using assms by (simp add: schema_reads_stateJson)

lemma CellSchema_w_cellJson: "validCell_w cell \<Longrightarrow> CellSchema_w (cellJson_w cell) = Some cell"
  by (cases cell) (auto simp: cellJson_w_def validCell_w_def colorName_w_def required_def)

lemma board_round_trip_w:
  assumes "list_all (list_all validCell_w) b"
  shows "z_array (z_array CellSchema_w) (JArr (map (\<lambda>column. JArr (map cellJson_w column)) b)) = Some b"
proof (rule z_array_map)
  fix column
  assume "column \<in> set b"
  with assms have "list_all validCell_w column"
    by (simp add: list_all_iff)
  then show "z_array CellSchema_w (JArr (map cellJson_w column)) = Some column"
    by (intro z_array_map CellSchema_w_cellJson) (simp add: list_all_iff)
qed

lemma schema_reads_stateJson_w:
  assumes "validState_w w"
  shows "ExtendedGameStateSchema_w (stateJson_w w) =
     Some \<lparr>board_w = board_w w, current_player = current_player w,
           is_game_over = is_game_over w, winner_w = winner_w w,
           newestPieceColumn_w = readBack (newestPieceColumn_w w),
           newestComputerPieceColumn_w = readBack (newestComputerPieceColumn_w w),
           minimaxQuality_w = minimaxQuality_w w\<rparr>"
proof -
  from assms have b: "list_all (list_all validCell_w) (board_w w)"
    and p: "colorName_w (current_player w)"
    and v: "case winner_w w of Value c \<Rightarrow> colorName_w c | Null \<Rightarrow> True | Undefined \<Rightarrow> True"
    by (simp_all add: validState_w_def)
  define props where "props =
     [(''board'', JArr (map (\<lambda>column. JArr (map cellJson_w column)) (board_w w))),
      (''current_player'', JStr (current_player w)),
      (''is_game_over'', JBool (is_game_over w))]
     @ winnerJson_w (winner_w w)
     @ [(''newestPieceColumn'', numberJson (newestPieceColumn_w w)),
        (''newestComputerPieceColumn'', numberJson (newestComputerPieceColumn_w w)),
        (''minimaxQuality'', JStr (quality_name (minimaxQuality_w w)))]"
  have 1: "required props ''board'' (z_array (z_array CellSchema_w)) = Some (board_w w)"
    unfolding props_def required_def
    by (simp add: board_round_trip_w [OF b] del: z_array.simps)
  have 2: "required props ''current_player'' ColorSchema_w = Some (current_player w)"
    unfolding props_def required_def using p by (simp add: colorName_w_def)
  have 3: "required props ''is_game_over'' z_boolean = Some (is_game_over w)"
    unfolding props_def required_def by simp
  have 4: "WinnerSchema_w (map_of props ''winner'') = Some (winner_w w)"
    unfolding props_def using v
    by (cases "winner_w w") (auto simp: winnerJson_w_def WinnerSchema_w_def colorName_w_def)
  have 5: "required props ''newestPieceColumn'' z_number_nullable =
             Some (readBack (newestPieceColumn_w w))"
    unfolding props_def required_def
    by (cases "winner_w w") (simp_all add: winnerJson_w_def z_number_nullable_numberJson)
  have 6: "required props ''newestComputerPieceColumn'' z_number_nullable =
             Some (readBack (newestComputerPieceColumn_w w))"
    unfolding props_def required_def
    by (cases "winner_w w") (simp_all add: winnerJson_w_def z_number_nullable_numberJson)
  have 7: "required props ''minimaxQuality'' QualitySchema = Some (minimaxQuality_w w)"
    unfolding props_def required_def
    by (cases "winner_w w")
       (simp_all add: winnerJson_w_def QualitySchema_name del: QualitySchema.simps)
  have "ExtendedGameStateSchema_w (JObj props) =
     Some \<lparr>board_w = board_w w, current_player = current_player w,
           is_game_over = is_game_over w, winner_w = winner_w w,
           newestPieceColumn_w = readBack (newestPieceColumn_w w),
           newestComputerPieceColumn_w = readBack (newestComputerPieceColumn_w w),
           minimaxQuality_w = minimaxQuality_w w\<rparr>"
    by (simp add: 1 2 3 4 5 6 7)
  then show ?thesis
    by (simp add: stateJson_w_def props_def)
qed

section \<open>Properties of the pages\<close>

subsection \<open>Engine calls of a page computation\<close>

lemma calls_ret: "calls (ret x) = []"
  by (simp add: calls_def ret_def)

lemma outcome_ret: "outcome (ret x) = Inr x"
  by (simp add: outcome_def ret_def)

lemma calls_bind:
  "calls (bind m f) = calls m @ (case outcome m of Inl e \<Rightarrow> [] | Inr x \<Rightarrow> calls (f x))"
  by (simp add: calls_def outcome_def bind_def split: prod.splits sum.splits)

lemma outcome_bind:
  "outcome (bind m f) = (case outcome m of Inl e \<Rightarrow> Inl e | Inr x \<Rightarrow> outcome (f x))"
  by (simp add: outcome_def bind_def split: prod.splits sum.splits)

lemma calls_bind_all:
  assumes "\<forall>c \<in> set (calls m). P c" and "\<And>x. \<forall>c \<in> set (calls (f x)). P c"
  shows "\<forall>c \<in> set (calls (bind m f)). P c"
  using assms by (auto simp: calls_bind split: sum.splits)

lemma calls_forEach_all:
  assumes "\<And>x. \<forall>c \<in> set (calls (f x)). P c"
  shows "\<forall>c \<in> set (calls (forEach f xs)). P c"
proof (induction xs)
  case Nil
  show ?case by (simp add: calls_ret)
next
  case (Cons x xs)
  show ?case
    unfolding forEach.simps
    by (intro calls_bind_all assms Cons.IH) (simp_all add: calls_ret)
qed

lemma outcome_bind_neq:
  assumes "outcome m \<noteq> Inl e" and "\<And>x. outcome (f x) \<noteq> Inl e"
  shows "outcome (bind m f) \<noteq> Inl e"
  using assms by (auto simp: outcome_bind split: sum.splits)

lemma outcome_forEach_neq:
  assumes "\<And>x. outcome (f x) \<noteq> Inl e"
  shows "outcome (forEach f xs) \<noteq> Inl e"
proof (induction xs)
  case Nil
  show ?case by (simp add: outcome_ret)
next
  case (Cons x xs)
  show ?case
    unfolding forEach.simps
    by (intro outcome_bind_neq assms Cons.IH) (simp_all add: outcome_ret)
qed

lemmas page_simps =
  calls_def outcome_def bind_def ret_def call_getComputerMove_def call_placePiece_def

lemma calls_computerTurn:
  "\<forall>c \<in> set (calls (computerTurn gcm pp gs)). call_state c = GameState.truncate gs \<and> \<not> isGameOver gs"
  unfolding computerTurn_def
  by (auto simp: page_simps split: sum.splits prod.splits)

lemma calls_getNextState:
  "\<forall>c \<in> set (calls (getNextState pp gs col)). call_state c = GameState.truncate gs \<and> \<not> isGameOver gs"
  unfolding getNextState_def
  by (auto simp: page_simps split: sum.splits prod.splits)

lemma calls_computerTurn_w:
  "\<forall>c \<in> set (calls (computerTurn_w gcm pp gs)). call_state c = WasmGameState.truncate gs \<and> \<not> is_game_over gs"
  unfolding computerTurn_w_def
  by (auto simp: page_simps split: sum.splits prod.splits)

lemma calls_getNextState_w:
  "\<forall>c \<in> set (calls (getNextState_w pp gs col)). call_state c = WasmGameState.truncate gs \<and> \<not> is_game_over gs"
  unfolding getNextState_w_def
  by (auto simp: page_simps split: sum.splits prod.splits)

lemma isGameOver_truncate [simp]: "isGameOver (GameState.truncate gs) = isGameOver gs"
  by (simp add: GameState.truncate_def)

lemma is_game_over_truncate [simp]: "is_game_over (WasmGameState.truncate gs) = is_game_over gs"
  by (simp add: WasmGameState.truncate_def)

lemma calls_page_nonterminal:
  "\<forall>c \<in> set (calls (ConnectFourGame up sp created gcm pp param)). \<not> isGameOver (call_state c)"
  unfolding ConnectFourGame_def
proof (intro calls_bind_all calls_forEach_all)
  show "\<forall>c\<in>set (calls (computerTurn gcm pp (loadState up sp (initialState created) param))).
          \<not> isGameOver (call_state c)"
    using calls_computerTurn by fastforce
  show "\<forall>c\<in>set (calls (getNextState pp x xa)). \<not> isGameOver (call_state c)" for x xa
    using calls_getNextState by fastforce
qed (simp add: calls_ret)

lemma calls_page_nonterminal_w:
  "\<forall>c \<in> set (calls (ConnectFourGame_w up sp created gcm pp param)). \<not> is_game_over (call_state c)"
  unfolding ConnectFourGame_w_def
proof (intro calls_bind_all calls_forEach_all)
  show "\<forall>c\<in>set (calls (computerTurn_w gcm pp (loadState up sp (initialState_w created) param))).
          \<not> is_game_over (call_state c)"
    using calls_computerTurn_w by fastforce
  show "\<forall>c\<in>set (calls (getNextState_w pp x xa)). \<not> is_game_over (call_state c)" for x xa
    using calls_getNextState_w by fastforce
qed (simp add: calls_ret)

lemma outcome_computerTurn_not_over:
  assumes "\<And>s q. gcm s q = Inl GameAlreadyOver \<Longrightarrow> isGameOver s"
      and "\<And>s c. pp s c = Inl GameAlreadyOver \<Longrightarrow> isGameOver s"
  shows "outcome (computerTurn gcm pp gs) \<noteq> Inl GameAlreadyOver"
  unfolding computerTurn_def
  using assms(1)[of "GameState.truncate gs"] assms(2)[of "GameState.truncate gs"]
  by (auto simp: page_simps split: sum.splits prod.splits)

lemma outcome_getNextState_not_over:
  assumes "\<And>s c. pp s c = Inl GameAlreadyOver \<Longrightarrow> isGameOver s"
  shows "outcome (getNextState pp gs col) \<noteq> Inl GameAlreadyOver"
  unfolding getNextState_def
  using assms[of "GameState.truncate gs"]
  by (auto simp: page_simps split: sum.splits prod.splits)

lemma outcome_page_not_over:
  assumes "\<And>s q. gcm s q = Inl GameAlreadyOver \<Longrightarrow> isGameOver s"
      and "\<And>s c. pp s c = Inl GameAlreadyOver \<Longrightarrow> isGameOver s"
  shows "outcome (ConnectFourGame up sp created gcm pp param) \<noteq> Inl GameAlreadyOver"
  unfolding ConnectFourGame_def
  by (intro outcome_bind_neq outcome_forEach_neq outcome_computerTurn_not_over
        outcome_getNextState_not_over assms) (simp_all add: outcome_ret)

text \<open>
  C9. For every terminal game state and every column, the speculative next-state
  function returns the current game state itself, without calling the engine, in
  the TypeScript pages and in the WASM page.
\<close>

theorem getNextState_terminal:
  "(isGameOver gameState \<longrightarrow> getNextState placePiece gameState column = ([], Inr gameState)) \<and>
   (is_game_over gameState_w \<longrightarrow>
      getNextState_w place_piece gameState_w column_w = ([], Inr gameState_w))"
  by (simp add: getNextState_def getNextState_w_def ret_def)

theorem getNextState_terminal_witness:
  "isGameOver wonState \<and> getNextState applyMove wonState 5 = ([], Inr wonState) \<and>
   is_game_over wonState_w \<and> getNextState_w standInPlace wonState_w 5 = ([], Inr wonState_w)"
  using getNextState_terminal [of wonState applyMove 5 wonState_w standInPlace 5]
  by (simp add: wonState_def wonState_w_def)

text \<open>
  C10. When the incoming state is not over and yellow is to move, and the engine
  answers column \<open>m\<close> and the successor \<open>cs\<close>, the page goes on with \<open>cs\<close>,
  \<open>minimaxQuality\<close> and \<open>newestPieceColumn\<close> copied from the incoming state and
  \<open>newestComputerPieceColumn\<close> set to \<open>m\<close>; every other incoming state (over, or
  red to move) is kept as it is and the engine is not called. Both variants.
\<close>

theorem computerTurn_frame:
  "(\<not> isGameOver gs \<and> currentPlayer gs = yellow \<and>
    getComputerMove (GameState.truncate gs) (minimaxQuality gs) = Inr m \<and>
    placePiece (GameState.truncate gs) m = Inr cs \<longrightarrow>
      outcome (computerTurn getComputerMove placePiece gs) =
        Inr \<lparr>board = board cs, currentPlayer = currentPlayer cs, isGameOver = isGameOver cs,
              winner = winner cs, newestPieceColumn = newestPieceColumn gs,
              newestComputerPieceColumn = Some (columnNumber m),
              minimaxQuality = minimaxQuality gs\<rparr>) \<and>
   (isGameOver gs \<or> currentPlayer gs = red \<longrightarrow>
      computerTurn getComputerMove placePiece gs = ([], Inr gs)) \<and>
   (\<not> is_game_over ws \<and> current_player ws = ''Yellow'' \<and>
    get_computer_move (WasmGameState.truncate ws) (minimaxQuality_w ws) = Inr wm \<and>
    place_piece (WasmGameState.truncate ws) wm = Inr wcs \<longrightarrow>
      outcome (computerTurn_w get_computer_move place_piece ws) =
        Inr \<lparr>board_w = board_w wcs, current_player = current_player wcs,
              is_game_over = is_game_over wcs, winner_w = winner_w wcs,
              newestPieceColumn_w = newestPieceColumn_w ws,
              newestComputerPieceColumn_w = Some (columnNumber wm),
              minimaxQuality_w = minimaxQuality_w ws\<rparr>) \<and>
   (is_game_over ws \<or> current_player ws \<noteq> ''Yellow'' \<longrightarrow>
      computerTurn_w get_computer_move place_piece ws = ([], Inr ws))"
  by (auto simp: computerTurn_def computerTurn_w_def page_simps GameState.extend_def
        WasmGameState.extend_def ExtendedGameState.fields_def WasmExtendedGameState.fields_def)

theorem computerTurn_frame_witness:
  "\<not> isGameOver yellowToMove \<and> currentPlayer yellowToMove = yellow \<and>
   outcome (computerTurn (chooseMove exampleParams) applyMove yellowToMove) =
     Inr \<lparr>board = [[None, None, None, None, None, None],
                    [None, None, None, None, None, None],
                    [None, None, None, None, None, None],
                    [Some red, Some yellow, None, None, None, None],
                    [None, None, None, None, None, None],
                    [None, None, None, None, None, None],
                    [None, None, None, None, None, None]],
           currentPlayer = red, isGameOver = False, winner = None,
           newestPieceColumn = Some (Finite 3), newestComputerPieceColumn = Some (Finite 3),
           minimaxQuality = bad\<rparr> \<and>
   computerTurn (chooseMove exampleParams) applyMove wonState = ([], Inr wonState) \<and>
   outcome (computerTurn_w standInMove standInPlace yellowToMove_w) =
     Inr \<lparr>board_w = [[Empty, Empty, Empty, Empty, Empty, Empty],
                      [Empty, Empty, Empty, Empty, Empty, Empty],
                      [Empty, Empty, Empty, Empty, Empty, Empty],
                      [Filled ''Red'', Empty, Empty, Empty, Empty, Empty],
                      [Filled ''Yellow'', Empty, Empty, Empty, Empty, Empty],
                      [Empty, Empty, Empty, Empty, Empty, Empty],
                      [Empty, Empty, Empty, Empty, Empty, Empty]],
           current_player = ''Red'', is_game_over = False, winner_w = Undefined,
           newestPieceColumn_w = Some (Finite 3), newestComputerPieceColumn_w = Some (Finite 4),
           minimaxQuality_w = bad\<rparr> \<and>
   computerTurn_w standInMove standInPlace wonState_w = ([], Inr wonState_w)"
proof -
  have move: "chooseMove exampleParams (GameState.truncate yellowToMove)
                (minimaxQuality yellowToMove) = Inr 3"
    by code_simp
  have place: "applyMove (GameState.truncate yellowToMove) 3 =
     Inr \<lparr>board = [[None, None, None, None, None, None],
                    [None, None, None, None, None, None],
                    [None, None, None, None, None, None],
                    [Some red, Some yellow, None, None, None, None],
                    [None, None, None, None, None, None],
                    [None, None, None, None, None, None],
                    [None, None, None, None, None, None]],
           currentPlayer = red, isGameOver = False, winner = None\<rparr>"
    by code_simp
  have pre: "\<not> isGameOver yellowToMove \<and> currentPlayer yellowToMove = yellow"
    by (simp add: yellowToMove_def)
  have pre_w: "\<not> is_game_over yellowToMove_w \<and> current_player yellowToMove_w = ''Yellow''"
    by (simp add: yellowToMove_w_def)
  have move_w: "standInMove (WasmGameState.truncate yellowToMove_w)
                  (minimaxQuality_w yellowToMove_w) = Inr 4"
    by (simp add: standInMove_def)
  have place_w: "standInPlace (WasmGameState.truncate yellowToMove_w) 4 =
     Inr \<lparr>board_w = [[Empty, Empty, Empty, Empty, Empty, Empty],
                      [Empty, Empty, Empty, Empty, Empty, Empty],
                      [Empty, Empty, Empty, Empty, Empty, Empty],
                      [Filled ''Red'', Empty, Empty, Empty, Empty, Empty],
                      [Filled ''Yellow'', Empty, Empty, Empty, Empty, Empty],
                      [Empty, Empty, Empty, Empty, Empty, Empty],
                      [Empty, Empty, Empty, Empty, Empty, Empty]],
           current_player = ''Red'', is_game_over = False, winner_w = Undefined\<rparr>"
    by (simp add: standInPlace_def yellowToMove_w_def WasmGameState.truncate_def)
  note a = computerTurn_frame [of yellowToMove "chooseMove exampleParams" 3 applyMove _
             yellowToMove_w standInMove 4 standInPlace]
  note b = computerTurn_frame [of wonState "chooseMove exampleParams" _ applyMove _
             wonState_w standInMove _ standInPlace]
  have over: "isGameOver wonState" "is_game_over wonState_w"
    by (simp_all add: wonState_def wonState_w_def)
  from a move place pre pre_w move_w place_w
  have 1: "outcome (computerTurn (chooseMove exampleParams) applyMove yellowToMove) =
     Inr \<lparr>board = [[None, None, None, None, None, None],
                    [None, None, None, None, None, None],
                    [None, None, None, None, None, None],
                    [Some red, Some yellow, None, None, None, None],
                    [None, None, None, None, None, None],
                    [None, None, None, None, None, None],
                    [None, None, None, None, None, None]],
           currentPlayer = red, isGameOver = False, winner = None,
           newestPieceColumn = Some (Finite 3), newestComputerPieceColumn = Some (Finite 3),
           minimaxQuality = bad\<rparr>"
    by (simp add: yellowToMove_def columnNumber_def)
  from a move place pre pre_w move_w place_w
  have 2: "outcome (computerTurn_w standInMove standInPlace yellowToMove_w) =
     Inr \<lparr>board_w = [[Empty, Empty, Empty, Empty, Empty, Empty],
                      [Empty, Empty, Empty, Empty, Empty, Empty],
                      [Empty, Empty, Empty, Empty, Empty, Empty],
                      [Filled ''Red'', Empty, Empty, Empty, Empty, Empty],
                      [Filled ''Yellow'', Empty, Empty, Empty, Empty, Empty],
                      [Empty, Empty, Empty, Empty, Empty, Empty],
                      [Empty, Empty, Empty, Empty, Empty, Empty]],
           current_player = ''Red'', is_game_over = False, winner_w = Undefined,
           newestPieceColumn_w = Some (Finite 3), newestComputerPieceColumn_w = Some (Finite 4),
           minimaxQuality_w = bad\<rparr>"
    by (simp add: yellowToMove_w_def columnNumber_def)
  from b over have 3: "computerTurn (chooseMove exampleParams) applyMove wonState = ([], Inr wonState)"
    "computerTurn_w standInMove standInPlace wonState_w = ([], Inr wonState_w)"
    by simp_all
  from pre 1 2 3 show ?thesis by simp
qed

text \<open>
  C8. The pages never call \<open>placePiece\<close> or \<open>getComputerMove\<close> on a state that is
  over, in either variant; so with an engine that fails with \<open>GameAlreadyOver\<close> only
  on states that are over, no request fails with \<open>GameAlreadyOver\<close>.
\<close>

theorem page_never_calls_engine_when_over:
  "(\<forall>c \<in> set (calls (ConnectFourGame uncrush_parse schema_parse created getComputerMove
                        placePiece stateParam)).
      \<not> isGameOver (call_state c)) \<and>
   (\<forall>c \<in> set (calls (ConnectFourGame_w uncrush_parse_w schema_parse_w created_w
                        get_computer_move place_piece stateParam_w)).
      \<not> is_game_over (call_state c)) \<and>
   ((\<forall>s q. getComputerMove s q = Inl GameAlreadyOver \<longrightarrow> isGameOver s) \<and>
    (\<forall>s c. placePiece s c = Inl GameAlreadyOver \<longrightarrow> isGameOver s) \<longrightarrow>
      outcome (ConnectFourGame uncrush_parse schema_parse created getComputerMove
                 placePiece stateParam) \<noteq> Inl GameAlreadyOver)"
  using calls_page_nonterminal [of uncrush_parse schema_parse created getComputerMove
          placePiece stateParam]
        calls_page_nonterminal_w [of uncrush_parse_w schema_parse_w created_w
          get_computer_move place_piece stateParam_w]
        outcome_page_not_over [of getComputerMove placePiece uncrush_parse schema_parse
          created stateParam]
  by blast

lemma applyMove_GameAlreadyOver: "applyMove s c = Inl GameAlreadyOver \<Longrightarrow> isGameOver s"
  by (auto simp: applyMove_def Let_def split: if_splits option.splits)

lemma chooseMove_GameAlreadyOver: "chooseMove P s q = Inl GameAlreadyOver \<Longrightarrow> isGameOver s"
  by (auto simp: chooseMove_def split: if_splits list.splits quality.splits)

theorem page_never_calls_engine_when_over_witness:
  "list_all (\<lambda>c. \<not> isGameOver (call_state c))
     (calls (ConnectFourGame (\<lambda>t. None :: json option) ExtendedGameStateSchema
               (createInitialState yellow) (chooseMove exampleParams) applyMove None)) \<and>
   length (calls (ConnectFourGame (\<lambda>t. None :: json option) ExtendedGameStateSchema
               (createInitialState yellow) (chooseMove exampleParams) applyMove None)) = 9 \<and>
   list_all (\<lambda>c. \<not> is_game_over (call_state c))
     (calls (ConnectFourGame_w (\<lambda>t. None :: json option) ExtendedGameStateSchema_w
               (WasmGameState.truncate yellowToMove_w) standInMove standInPlace None)) \<and>
   outcome (ConnectFourGame (\<lambda>t. None :: json option) ExtendedGameStateSchema
              (createInitialState yellow) (chooseMove exampleParams) applyMove None)
     \<noteq> Inl GameAlreadyOver"
proof -
  note t = page_never_calls_engine_when_over
      [of "\<lambda>t. None :: json option" ExtendedGameStateSchema "createInitialState yellow"
          "chooseMove exampleParams" applyMove None
          "\<lambda>t. None :: json option" ExtendedGameStateSchema_w
          "WasmGameState.truncate yellowToMove_w" standInMove standInPlace None]
  have n: "length (calls (ConnectFourGame (\<lambda>t. None :: json option) ExtendedGameStateSchema
               (createInitialState yellow) (chooseMove exampleParams) applyMove None)) = 9"
    by code_simp
  have engine: "(\<forall>s q. chooseMove exampleParams s q = Inl GameAlreadyOver \<longrightarrow> isGameOver s) \<and>
                (\<forall>s c. applyMove s c = Inl GameAlreadyOver \<longrightarrow> isGameOver s)"
    using applyMove_GameAlreadyOver chooseMove_GameAlreadyOver by blast
  note c1 = t [THEN conjunct1]
  note c2 = t [THEN conjunct2, THEN conjunct1]
  note c3 = t [THEN conjunct2, THEN conjunct2, rule_format, OF engine]
  from c1 c2 c3 n show ?thesis
    by (simp add: list_all_iff)
qed


lemma calls_forEach_getNextState:
  "\<forall>c \<in> set (calls (forEach (getNextState pp g) cols)). call_state c = GameState.truncate g"
  by (rule calls_forEach_all) (use calls_getNextState in blast)

lemma calls_forEach_getNextState_w:
  "\<forall>c \<in> set (calls (forEach (getNextState_w pp g) cols)). call_state c = WasmGameState.truncate g"
  by (rule calls_forEach_all) (use calls_getNextState_w in blast)

lemma calls_page_states:
  "\<forall>c \<in> set (calls (ConnectFourGame up sp created gcm pp param)).
      call_state c = GameState.truncate (loadState up sp (initialState created) param) \<or>
      (\<exists>g. outcome (computerTurn gcm pp (loadState up sp (initialState created) param)) = Inr g \<and>
           call_state c = GameState.truncate g)"
proof
  fix c
  assume c: "c \<in> set (calls (ConnectFourGame up sp created gcm pp param))"
  let ?L = "loadState up sp (initialState created) param"
  from c consider
      (turn) "c \<in> set (calls (computerTurn gcm pp ?L))"
    | (link) g where "outcome (computerTurn gcm pp ?L) = Inr g"
        "c \<in> set (calls (forEach (getNextState pp g) (linkColumns g)))"
    by (cases "outcome (computerTurn gcm pp ?L)")
       (auto simp: ConnectFourGame_def calls_bind calls_ret)
  then show "call_state c = GameState.truncate ?L \<or>
      (\<exists>g. outcome (computerTurn gcm pp ?L) = Inr g \<and> call_state c = GameState.truncate g)"
  proof cases
    case turn
    then show ?thesis using calls_computerTurn by blast
  next
    case link
    then show ?thesis using calls_forEach_getNextState by blast
  qed
qed

lemma calls_page_states_w:
  "\<forall>c \<in> set (calls (ConnectFourGame_w up sp created gcm pp param)).
      call_state c = WasmGameState.truncate (loadState up sp (initialState_w created) param) \<or>
      (\<exists>g. outcome (computerTurn_w gcm pp (loadState up sp (initialState_w created) param)) = Inr g \<and>
           call_state c = WasmGameState.truncate g)"
proof
  fix c
  assume c: "c \<in> set (calls (ConnectFourGame_w up sp created gcm pp param))"
  let ?L = "loadState up sp (initialState_w created) param"
  from c consider
      (turn) "c \<in> set (calls (computerTurn_w gcm pp ?L))"
    | (link) g where "outcome (computerTurn_w gcm pp ?L) = Inr g"
        "c \<in> set (calls (forEach (getNextState_w pp g) (linkColumns_w g)))"
    by (cases "outcome (computerTurn_w gcm pp ?L)")
       (auto simp: ConnectFourGame_w_def calls_bind calls_ret)
  then show "call_state c = WasmGameState.truncate ?L \<or>
      (\<exists>g. outcome (computerTurn_w gcm pp ?L) = Inr g \<and> call_state c = WasmGameState.truncate g)"
  proof cases
    case turn
    then show ?thesis using calls_computerTurn_w by blast
  next
    case link
    then show ?thesis using calls_forEach_getNextState_w by blast
  qed
qed


text \<open>
  C6. Whenever the \<open>state\<close> parameter is absent, or decompression or JSON parsing
  fails, or the schema rejects the document, the page goes on with the initial state
  (the created state with no newest columns and quality \<open>best\<close>); the loaded state
  is always the initial state or one the schema has accepted, and every engine call
  of a request is made on the loaded state or on the state built from the engine's
  own answer to it. The initial state is itself a state the schema accepts.
\<close>

theorem loadState_fallback:
  "(loadState uncrush_parse schema_parse init None = init) \<and>
   (uncrush_parse p = None \<longrightarrow> loadState uncrush_parse schema_parse init (Some p) = init) \<and>
   (uncrush_parse p = Some j \<and> schema_parse j = None \<longrightarrow>
      loadState uncrush_parse schema_parse init (Some p) = init) \<and>
   (loadState uncrush_parse schema_parse init stateParam = init \<or>
    (\<exists>p j. stateParam = Some p \<and> uncrush_parse p = Some j \<and>
       schema_parse j = Some (loadState uncrush_parse schema_parse init stateParam))) \<and>
   initialState (createInitialState first) =
     \<lparr>board = replicate 7 (replicate 6 None), currentPlayer = first, isGameOver = False,
      winner = None, newestPieceColumn = None, newestComputerPieceColumn = None,
      minimaxQuality = best\<rparr> \<and>
   (\<forall>c \<in> set (calls (ConnectFourGame up sp created getComputerMove placePiece param)).
      call_state c = GameState.truncate (loadState up sp (initialState created) param) \<or>
      (\<exists>g. outcome (computerTurn getComputerMove placePiece
                      (loadState up sp (initialState created) param)) = Inr g \<and>
           call_state c = GameState.truncate g)) \<and>
   (\<forall>c \<in> set (calls (ConnectFourGame_w up_w sp_w created_w get_computer_move place_piece
                        param_w)).
      call_state c = WasmGameState.truncate (loadState up_w sp_w (initialState_w created_w) param_w) \<or>
      (\<exists>g. outcome (computerTurn_w get_computer_move place_piece
                      (loadState up_w sp_w (initialState_w created_w) param_w)) = Inr g \<and>
           call_state c = WasmGameState.truncate g)) \<and>
   ExtendedGameStateSchema (stateJson (initialState (createInitialState first))) =
     Some (initialState (createInitialState first))"
proof -
  have 1: "loadState uncrush_parse schema_parse init None = init"
    by (simp add: loadState_def)
  have 2: "uncrush_parse p = None \<longrightarrow> loadState uncrush_parse schema_parse init (Some p) = init"
    by (simp add: loadState_def)
  have 3: "uncrush_parse p = Some j \<and> schema_parse j = None \<longrightarrow>
      loadState uncrush_parse schema_parse init (Some p) = init"
    by (simp add: loadState_def)
  have 4: "loadState uncrush_parse schema_parse init stateParam = init \<or>
    (\<exists>p j. stateParam = Some p \<and> uncrush_parse p = Some j \<and>
       schema_parse j = Some (loadState uncrush_parse schema_parse init stateParam))"
    by (auto simp: loadState_def split: option.splits)
  have 5: "initialState (createInitialState first) =
     \<lparr>board = replicate 7 (replicate 6 None), currentPlayer = first, isGameOver = False,
      winner = None, newestPieceColumn = None, newestComputerPieceColumn = None,
      minimaxQuality = best\<rparr>"
    by (simp add: initialState_def createInitialState_def COLS_def ROWS_def
          GameState.extend_def ExtendedGameState.fields_def)
  have initial_accepted:
    "ExtendedGameStateSchema (stateJson (initialState (createInitialState first))) =
       Some (initialState (createInitialState first))"
    by (rule schema_accepts_stateJson)
       (simp_all add: readBack_def initialState_def GameState.extend_def
          ExtendedGameState.fields_def)
  show ?thesis
    using 1 2 3 4 5
      calls_page_states [of up sp created getComputerMove placePiece param]
      calls_page_states_w [of up_w sp_w created_w get_computer_move place_piece param_w]
      initial_accepted
    by blast
qed

theorem loadState_fallback_witness:
  "loadState exampleDecode ExtendedGameStateSchema (initialState (createInitialState red)) None
     = initialState (createInitialState red) \<and>
   exampleDecode ''bad'' = None \<and>
   loadState exampleDecode ExtendedGameStateSchema (initialState (createInitialState red))
     (Some ''bad'') = initialState (createInitialState red) \<and>
   exampleDecode ''null'' = Some JNull \<and> ExtendedGameStateSchema JNull = None \<and>
   loadState exampleDecode ExtendedGameStateSchema (initialState (createInitialState red))
     (Some ''null'') = initialState (createInitialState red) \<and>
   calls (ConnectFourGame exampleDecode ExtendedGameStateSchema (createInitialState yellow)
            (chooseMove exampleParams) applyMove (Some ''bad'')) \<noteq> [] \<and>
   list_all
     (\<lambda>c. call_state c =
            GameState.truncate (loadState exampleDecode ExtendedGameStateSchema
              (initialState (createInitialState yellow)) (Some ''bad'')) \<or>
          (\<exists>g. outcome (computerTurn (chooseMove exampleParams) applyMove
                  (loadState exampleDecode ExtendedGameStateSchema
                     (initialState (createInitialState yellow)) (Some ''bad''))) = Inr g \<and>
               call_state c = GameState.truncate g))
     (calls (ConnectFourGame exampleDecode ExtendedGameStateSchema (createInitialState yellow)
               (chooseMove exampleParams) applyMove (Some ''bad'')))"
proof -
  have bad: "exampleDecode ''bad'' = None"
    by (simp add: exampleDecode_def)
  have null: "exampleDecode ''null'' = Some JNull \<and> ExtendedGameStateSchema JNull = None"
    by (simp add: exampleDecode_def)
  note a = loadState_fallback [of exampleDecode ExtendedGameStateSchema
             "initialState (createInitialState red)" "''bad''" _ _ _
             exampleDecode ExtendedGameStateSchema "createInitialState yellow"
             "chooseMove exampleParams" applyMove "Some ''bad''"]
  note b = loadState_fallback [of exampleDecode ExtendedGameStateSchema
             "initialState (createInitialState red)" "''null''" JNull]
  have n: "calls (ConnectFourGame exampleDecode ExtendedGameStateSchema (createInitialState yellow)
            (chooseMove exampleParams) applyMove (Some ''bad'')) \<noteq> []"
    by code_simp
  note a1 = a [THEN conjunct1]
  note a2 = a [THEN conjunct2, THEN conjunct1, rule_format, OF bad]
  note b3 = b [THEN conjunct2, THEN conjunct2, THEN conjunct1, rule_format, OF null]
  note a6 = a [THEN conjunct2, THEN conjunct2, THEN conjunct2, THEN conjunct2, THEN conjunct2,
               THEN conjunct1]
  from a1 a2 b3 a6 bad null n show ?thesis
    by (simp add: list_all_iff)
qed


section \<open>The bridge\<close>

lemma capitalize_color_name:
  "capitalize (color_name c) = (case c of red \<Rightarrow> ''Red'' | yellow \<Rightarrow> ''Yellow'')"
proof (cases c)
  case red
  have "capitalize ''red'' = ''Red''" by code_simp
  with red show ?thesis by simp
next
  case yellow
  have "capitalize ''yellow'' = ''Yellow''" by code_simp
  with yellow show ?thesis by simp
qed

lemma convertTsToWasmGameState_fields:
  "convertTsToWasmGameState s =
     \<lparr>board_w =
        map (map (\<lambda>cell. case cell of
                            None \<Rightarrow> Empty
                          | Some red \<Rightarrow> Filled ''Red''
                          | Some yellow \<Rightarrow> Filled ''Yellow''))
          (board s),
      current_player = (case currentPlayer s of red \<Rightarrow> ''Red'' | yellow \<Rightarrow> ''Yellow''),
      is_game_over = isGameOver s,
      winner_w =
        (case winner s of
           None \<Rightarrow> Null
         | Some red \<Rightarrow> Value ''Red''
         | Some yellow \<Rightarrow> Value ''Yellow''),
      newestPieceColumn_w = newestPieceColumn s,
      newestComputerPieceColumn_w = newestComputerPieceColumn s,
      minimaxQuality_w = minimaxQuality s\<rparr>"
  by (auto simp: convertTsToWasmGameState_def capitalize_color_name
        split: option.splits color.splits)

text \<open>A translation back, used to show that nothing is lost.\<close>

lemma bridge_has_inverse:
  "\<exists>restore. \<forall>s. restore (convertTsToWasmGameState s) = s"
proof -
  define colorOf :: "string \<Rightarrow> color" where
    "colorOf n = (if n = ''Red'' then red else yellow)" for n
  define cellOf :: "wasm_cell \<Rightarrow> color option" where
    "cellOf cell = (case cell of Empty \<Rightarrow> None | Filled n \<Rightarrow> Some (colorOf n))" for cell
  define restore :: "WasmExtendedGameState \<Rightarrow> ExtendedGameState" where
    "restore w =
       \<lparr>board = map (map cellOf) (board_w w),
        currentPlayer = colorOf (current_player w),
        isGameOver = is_game_over w,
        winner = (case winner_w w of Value n \<Rightarrow> Some (colorOf n) | Null \<Rightarrow> None | Undefined \<Rightarrow> None),
        newestPieceColumn = newestPieceColumn_w w,
        newestComputerPieceColumn = newestComputerPieceColumn_w w,
        minimaxQuality = minimaxQuality_w w\<rparr>" for w
  have cell: "cellOf (case cell of None \<Rightarrow> Empty | Some red \<Rightarrow> Filled ''Red''
                       | Some yellow \<Rightarrow> Filled ''Yellow'') = cell" for cell
    by (simp add: cellOf_def colorOf_def split: option.splits color.splits)
  have comp: "cellOf \<circ> (\<lambda>cell. case cell of None \<Rightarrow> Empty | Some red \<Rightarrow> Filled ''Red''
                       | Some yellow \<Rightarrow> Filled ''Yellow'') = id"
    by (rule ext) (simp add: cell)
  have "restore (convertTsToWasmGameState s) = s" for s
    unfolding convertTsToWasmGameState_fields restore_def
    by (cases s) (simp add: comp colorOf_def split: option.splits color.splits)
  then show ?thesis by blast
qed

text \<open>
  C5. The bridge maps a \<open>null\<close> cell to \<open>Empty\<close> and a colour cell to \<open>Filled\<close> of
  the capitalised colour name, capitalises \<open>currentPlayer\<close> and \<open>winner\<close>, keeps
  \<open>winner\<close> \<open>null\<close> when it is \<open>null\<close>, copies the other fields, is injective, and has
  an inverse translation that recovers every field.
\<close>

theorem convertTsToWasmGameState_lossless:
  "convertTsToWasmGameState s =
     \<lparr>board_w =
        map (map (\<lambda>cell. case cell of
                            None \<Rightarrow> Empty
                          | Some red \<Rightarrow> Filled ''Red''
                          | Some yellow \<Rightarrow> Filled ''Yellow''))
          (board s),
      current_player = (case currentPlayer s of red \<Rightarrow> ''Red'' | yellow \<Rightarrow> ''Yellow''),
      is_game_over = isGameOver s,
      winner_w =
        (case winner s of
           None \<Rightarrow> Null
         | Some red \<Rightarrow> Value ''Red''
         | Some yellow \<Rightarrow> Value ''Yellow''),
      newestPieceColumn_w = newestPieceColumn s,
      newestComputerPieceColumn_w = newestComputerPieceColumn s,
      minimaxQuality_w = minimaxQuality s\<rparr> \<and>
   inj convertTsToWasmGameState \<and>
   (\<exists>restore. \<forall>t. restore (convertTsToWasmGameState t) = t)"
proof -
  from bridge_has_inverse obtain restore where restore: "\<And>t. restore (convertTsToWasmGameState t) = t"
    by blast
  have "inj convertTsToWasmGameState"
    by (rule inj_on_inverseI [of _ restore]) (simp add: restore)
  with convertTsToWasmGameState_fields bridge_has_inverse show ?thesis
    by blast
qed

section \<open>The round trip\<close>

text \<open>
  C4. A state written with \<open>JSON.stringify\<close> and \<open>JSONCrush.crush\<close> and read back with
  \<open>JSONCrush.uncrush\<close>, \<open>JSON.parse\<close> and the schema comes back with the same board
  cells, current player, game-over flag and winner (\<open>null\<close> kept \<open>null\<close>, and in
  the WASM variant absent kept absent) and the same quality, for the TypeScript
  variant and for every valid state of the WASM variant. The two column fields come
  back as they were when they hold a finite number or \<open>null\<close>, and then the whole
  state comes back equal; an infinity or \<open>NaN\<close> there is written as \<open>null\<close> and
  comes back as \<open>null\<close>. The text codecs
  are library code: the theorem holds for every pair of them that gives the document
  of the state back.
\<close>

theorem state_round_trip:
  "(uncrush_parse (crush_stringify (stateJson s)) = Some (stateJson s) \<longrightarrow>
      decodeState uncrush_parse (encodeState crush_stringify s) =
        Some \<lparr>board = board s, currentPlayer = currentPlayer s, isGameOver = isGameOver s,
              winner = winner s, newestPieceColumn = readBack (newestPieceColumn s),
              newestComputerPieceColumn = readBack (newestComputerPieceColumn s),
              minimaxQuality = minimaxQuality s\<rparr>) \<and>
   (validState_w w \<and> uncrush_parse_w (crush_stringify_w (stateJson_w w)) = Some (stateJson_w w) \<longrightarrow>
      decodeState_w uncrush_parse_w (encodeState_w crush_stringify_w w) =
        Some \<lparr>board_w = board_w w, current_player = current_player w,
              is_game_over = is_game_over w, winner_w = winner_w w,
              newestPieceColumn_w = readBack (newestPieceColumn_w w),
              newestComputerPieceColumn_w = readBack (newestComputerPieceColumn_w w),
              minimaxQuality_w = minimaxQuality_w w\<rparr>) \<and>
   (uncrush_parse (crush_stringify (stateJson s)) = Some (stateJson s) \<and>
    readBack (newestPieceColumn s) = newestPieceColumn s \<and>
    readBack (newestComputerPieceColumn s) = newestComputerPieceColumn s \<longrightarrow>
      decodeState uncrush_parse (encodeState crush_stringify s) = Some s) \<and>
   (validState_w w \<and> uncrush_parse_w (crush_stringify_w (stateJson_w w)) = Some (stateJson_w w) \<and>
    readBack (newestPieceColumn_w w) = newestPieceColumn_w w \<and>
    readBack (newestComputerPieceColumn_w w) = newestComputerPieceColumn_w w \<longrightarrow>
      decodeState_w uncrush_parse_w (encodeState_w crush_stringify_w w) = Some w)"
  by (simp add: decodeState_def encodeState_def decodeState_w_def encodeState_w_def
        schema_reads_stateJson schema_reads_stateJson_w)

theorem state_round_trip_witness:
  "decodeState Some (encodeState (\<lambda>j. j) yellowToMove) = Some yellowToMove \<and>
   decodeState Some (encodeState (\<lambda>j. j) wonState) = Some wonState \<and>
   decodeState Some (encodeState (\<lambda>j. j) unboundedColumnState) =
     Some (unboundedColumnState\<lparr>newestPieceColumn := None\<rparr>) \<and>
   validState_w yellowToMove_w \<and>
   decodeState_w Some (encodeState_w (\<lambda>j. j) yellowToMove_w) = Some yellowToMove_w \<and>
   validState_w wonState_w \<and>
   decodeState_w Some (encodeState_w (\<lambda>j. j) wonState_w) = Some wonState_w"
proof -
  have v: "validState_w yellowToMove_w" "validState_w wonState_w"
    by (simp_all add: validState_w_def yellowToMove_w_def wonState_w_def validCell_w_def
          colorName_w_def)
  note a = state_round_trip [of Some "\<lambda>j. j" yellowToMove yellowToMove_w Some "\<lambda>j. j"]
  note b = state_round_trip [of Some "\<lambda>j. j" wonState wonState_w Some "\<lambda>j. j"]
  note c = state_round_trip [of Some "\<lambda>j. j" unboundedColumnState, THEN conjunct1]
  from a v have 1: "decodeState Some (encodeState (\<lambda>j. j) yellowToMove) = Some yellowToMove"
    "decodeState_w Some (encodeState_w (\<lambda>j. j) yellowToMove_w) = Some yellowToMove_w"
    by (simp_all add: yellowToMove_def yellowToMove_w_def readBack_def)
  from b v have 2: "decodeState Some (encodeState (\<lambda>j. j) wonState) = Some wonState"
    "decodeState_w Some (encodeState_w (\<lambda>j. j) wonState_w) = Some wonState_w"
    by (simp_all add: wonState_def wonState_w_def readBack_def)
  from c have 3: "decodeState Some (encodeState (\<lambda>j. j) unboundedColumnState) =
     Some (unboundedColumnState\<lparr>newestPieceColumn := None\<rparr>)"
    by (simp add: unboundedColumnState_def yellowToMove_def readBack_def)
  from 1 2 3 v show ?thesis
    by simp
qed

lemma bridge_valid: "validState_w (convertTsToWasmGameState s)"
  by (auto simp: convertTsToWasmGameState_fields validState_w_def validCell_w_def colorName_w_def
        list_all_iff split: option.splits color.splits)

section \<open>The state transition\<close>

lemma lowestEmpty_None: "(lowestEmpty cells = None) = (None \<notin> set cells)"
  by (induction cells) auto

lemma lowestEmpty_Some:
  "lowestEmpty cells = Some row \<Longrightarrow> row < length cells \<and> cells ! row = None"
  by (induction cells arbitrary: row) (auto split: if_splits)

text \<open>
  C2. On a state that is over \<open>applyMove\<close> fails with \<open>GameAlreadyOver\<close>; otherwise,
  on an index outside [0, 6], with \<open>InvalidColumn\<close>; otherwise, on a column with no
  Empty cell, with \<open>ColumnFull\<close>; otherwise it succeeds with a new state. The
  function is pure: its argument is a value and is not changed.
\<close>

theorem applyMove_outcomes:
  "(isGameOver state \<longrightarrow> applyMove state column = Inl GameAlreadyOver) \<and>
   (\<not> isGameOver state \<and> (column < 0 \<or> 6 < column) \<longrightarrow>
      applyMove state column = Inl InvalidColumn) \<and>
   (\<not> isGameOver state \<and> 0 \<le> column \<and> column \<le> 6 \<and>
    None \<notin> set (board state ! nat column) \<longrightarrow>
      applyMove state column = Inl ColumnFull) \<and>
   (\<not> isGameOver state \<and> 0 \<le> column \<and> column \<le> 6 \<and>
    None \<in> set (board state ! nat column) \<longrightarrow>
      (\<exists>state'. applyMove state column = Inr state'))"
proof -
  have full: "None \<notin> set (board state ! nat column) \<Longrightarrow>
              lowestEmpty (board state ! nat column) = None"
    by (simp add: lowestEmpty_None)
  have room: "None \<in> set (board state ! nat column) \<Longrightarrow>
              \<exists>row. lowestEmpty (board state ! nat column) = Some row"
    using lowestEmpty_None [of "board state ! nat column"] by auto
  show ?thesis
    using full room
    by (auto simp: applyMove_def Let_def)
qed

theorem applyMove_outcomes_witness:
  "isGameOver (GameState.truncate wonState) \<and>
   applyMove (GameState.truncate wonState) 0 = Inl GameAlreadyOver \<and>
   applyMove (createInitialState red) 7 = Inl InvalidColumn \<and>
   applyMove (createInitialState red) (- 1) = Inl InvalidColumn \<and>
   None \<notin> set (board columnFullState ! nat 0) \<and>
   applyMove columnFullState 0 = Inl ColumnFull \<and>
   (\<exists>state'. applyMove (createInitialState red) 3 = Inr state')"
proof -
  have over: "isGameOver (GameState.truncate wonState)"
    by (simp add: wonState_def GameState.truncate_def)
  have init: "\<not> isGameOver (createInitialState red)"
    by (simp add: createInitialState_def)
  have full: "\<not> isGameOver columnFullState \<and> (0::int) \<le> 0 \<and> (0::int) \<le> 6 \<and>
              None \<notin> set (board columnFullState ! nat 0)"
    by (simp add: columnFullState_def)
  have room: "\<not> isGameOver (createInitialState red) \<and> (0::int) \<le> 3 \<and> (3::int) \<le> 6 \<and>
              None \<in> set (board (createInitialState red) ! nat 3)"
    by (simp add: createInitialState_def COLS_def ROWS_def)
  note a = applyMove_outcomes [of "GameState.truncate wonState" 0, THEN conjunct1, rule_format,
             OF over]
  note b = applyMove_outcomes [of "createInitialState red" 7, THEN conjunct2, THEN conjunct1,
             rule_format]
  note c = applyMove_outcomes [of "createInitialState red" "- 1", THEN conjunct2, THEN conjunct1,
             rule_format]
  note d = applyMove_outcomes [of columnFullState 0, THEN conjunct2, THEN conjunct2,
             THEN conjunct1, rule_format, OF full]
  note e = applyMove_outcomes [of "createInitialState red" 3, THEN conjunct2, THEN conjunct2,
             THEN conjunct2, rule_format, OF room]
  from over a b c d e init full show ?thesis
    by simp
qed

section \<open>The detector against a scan of the whole board\<close>

lemma walk_ge:
  "m \<le> n \<Longrightarrow>
   (m \<le> walk b p x y dx dy n) =
   (\<forall>k. 1 \<le> k \<and> k \<le> int m \<longrightarrow> cellAt b (x + k * dx) (y + k * dy) = Some p)"
proof (induction n arbitrary: x y m)
  case 0
  then show ?case by auto
next
  case (Suc n)
  show ?case
  proof (cases m)
    case 0
    then show ?thesis by auto
  next
    case (Suc m')
    with Suc.prems have le: "m' \<le> n" by simp
    let ?P = "\<lambda>k. cellAt b (x + k * dx) (y + k * dy) = Some p"
    have shift: "(\<forall>k. 1 \<le> k \<and> k \<le> int (Suc m') \<longrightarrow> ?P k) =
                 (?P 1 \<and> (\<forall>k. 1 \<le> k \<and> k \<le> int m' \<longrightarrow> ?P (k + 1)))"
    proof
      assume a: "\<forall>k. 1 \<le> k \<and> k \<le> int (Suc m') \<longrightarrow> ?P k"
      have "?P 1"
        using a [rule_format, of 1] by simp
      moreover have "\<forall>k. 1 \<le> k \<and> k \<le> int m' \<longrightarrow> ?P (k + 1)"
      proof (intro allI impI)
        fix k :: int
        assume "1 \<le> k \<and> k \<le> int m'"
        then show "?P (k + 1)"
          using a [rule_format, of "k + 1"] by simp
      qed
      ultimately show "?P 1 \<and> (\<forall>k. 1 \<le> k \<and> k \<le> int m' \<longrightarrow> ?P (k + 1))"
        by blast
    next
      assume a: "?P 1 \<and> (\<forall>k. 1 \<le> k \<and> k \<le> int m' \<longrightarrow> ?P (k + 1))"
      show "\<forall>k. 1 \<le> k \<and> k \<le> int (Suc m') \<longrightarrow> ?P k"
      proof (intro allI impI)
        fix k :: int
        assume k: "1 \<le> k \<and> k \<le> int (Suc m')"
        show "?P k"
        proof (cases "k = 1")
          case True
          with a show ?thesis by simp
        next
          case False
          with k have "1 \<le> k - 1 \<and> k - 1 \<le> int m'" by simp
          with a have "?P (k - 1 + 1)" by blast
          then show ?thesis by simp
        qed
      qed
    qed
    show ?thesis
    proof (cases "cellAt b (x + dx) (y + dy) = Some p")
      case True
      have "(Suc m' \<le> walk b p x y dx dy (Suc n)) = (m' \<le> walk b p (x + dx) (y + dy) dx dy n)"
        using True by simp
      also have "\<dots> = (\<forall>k. 1 \<le> k \<and> k \<le> int m' \<longrightarrow>
                          cellAt b (x + dx + k * dx) (y + dy + k * dy) = Some p)"
        by (rule Suc.IH [OF le])
      also have "\<dots> = (\<forall>k. 1 \<le> k \<and> k \<le> int m' \<longrightarrow> ?P (k + 1))"
        by (simp add: algebra_simps)
      also have "\<dots> = (\<forall>k. 1 \<le> k \<and> k \<le> int (Suc m') \<longrightarrow> ?P k)"
        using True shift by simp
      finally show ?thesis using Suc by simp
    next
      case False
      then have "\<not> (\<forall>k. 1 \<le> k \<and> k \<le> int (Suc m') \<longrightarrow> ?P k)"
        using shift by simp
      with False Suc show ?thesis by simp
    qed
  qed
qed

lemma int_range_3:
  "(\<forall>k::int. 1 \<le> k \<and> k \<le> 3 \<longrightarrow> Q k) = (Q 1 \<and> Q 2 \<and> Q 3)"
proof
  assume "\<forall>k. 1 \<le> k \<and> k \<le> 3 \<longrightarrow> Q k"
  then show "Q 1 \<and> Q 2 \<and> Q 3" by simp
next
  assume q: "Q 1 \<and> Q 2 \<and> Q 3"
  show "\<forall>k. 1 \<le> k \<and> k \<le> 3 \<longrightarrow> Q k"
  proof (intro allI impI)
    fix k :: int
    assume "1 \<le> k \<and> k \<le> 3"
    then have "k = 1 \<or> k = 2 \<or> k = 3" by arith
    with q show "Q k" by blast
  qed
qed

lemma int_range_2:
  "(\<forall>k::int. 1 \<le> k \<and> k \<le> 2 \<longrightarrow> Q k) = (Q 1 \<and> Q 2)"
proof
  assume "\<forall>k. 1 \<le> k \<and> k \<le> 2 \<longrightarrow> Q k"
  then show "Q 1 \<and> Q 2" by simp
next
  assume q: "Q 1 \<and> Q 2"
  show "\<forall>k. 1 \<le> k \<and> k \<le> 2 \<longrightarrow> Q k"
  proof (intro allI impI)
    fix k :: int
    assume "1 \<le> k \<and> k \<le> 2"
    then have "k = 1 \<or> k = 2" by arith
    with q show "Q k" by blast
  qed
qed

lemma int_range_1:
  "(\<forall>k::int. 1 \<le> k \<and> k \<le> 1 \<longrightarrow> Q k) = Q 1"
proof
  assume "\<forall>k. 1 \<le> k \<and> k \<le> 1 \<longrightarrow> Q k"
  then show "Q 1" by simp
next
  assume q: "Q 1"
  show "\<forall>k. 1 \<le> k \<and> k \<le> 1 \<longrightarrow> Q k"
  proof (intro allI impI)
    fix k :: int
    assume "1 \<le> k \<and> k \<le> 1"
    then have "k = 1" by arith
    with q show "Q k" by blast
  qed
qed

text \<open>
  Along one axis through a cell of colour \<open>p\<close>: the two walks count four or more
  cells exactly when one of the four windows of four cells through the cell is all
  of colour \<open>p\<close>.
\<close>

lemma axis_count_window:
  assumes here: "cellAt b x y = Some p"
  shows "(4 \<le> axisCount b p x y (dx, dy)) =
         (fourAt b p x y (dx, dy) \<or> fourAt b p (x - dx) (y - dy) (dx, dy) \<or>
          fourAt b p (x - 2 * dx) (y - 2 * dy) (dx, dy) \<or>
          fourAt b p (x - 3 * dx) (y - 3 * dy) (dx, dy))"
proof -
  define Q where "Q k = (cellAt b (x + k * dx) (y + k * dy) = Some p)" for k :: int
  define f where "f = walk b p x y dx dy 6"
  define g where "g = walk b p x y (- dx) (- dy) 6"
  have Q0: "Q 0"
    using here by (simp add: Q_def)
  have fwd: "(m \<le> f) = (\<forall>k. 1 \<le> k \<and> k \<le> int m \<longrightarrow> Q k)" if "m \<le> 6" for m
    unfolding f_def Q_def by (rule walk_ge [OF that])
  have bwd: "(m \<le> g) = (\<forall>k. 1 \<le> k \<and> k \<le> int m \<longrightarrow> Q (- k))" if "m \<le> 6" for m
    unfolding g_def Q_def using walk_ge [OF that, of b p x y "- dx" "- dy"] by simp
  have f1: "(1 \<le> f) = Q 1" using fwd [of 1] by (simp add: int_range_1)
  have f2: "(2 \<le> f) = (Q 1 \<and> Q 2)" using fwd [of 2] by (simp add: int_range_2)
  have f3: "(3 \<le> f) = (Q 1 \<and> Q 2 \<and> Q 3)" using fwd [of 3] by (simp add: int_range_3)
  have g1: "(1 \<le> g) = Q (- 1)" using bwd [of 1] int_range_1 [of "\<lambda>k. Q (- k)"] by simp
  have g2: "(2 \<le> g) = (Q (- 1) \<and> Q (- 2))"
    using bwd [of 2] int_range_2 [of "\<lambda>k. Q (- k)"] by simp
  have g3: "(3 \<le> g) = (Q (- 1) \<and> Q (- 2) \<and> Q (- 3))"
    using bwd [of 3] int_range_3 [of "\<lambda>k. Q (- k)"] by simp
  have count: "(4 \<le> axisCount b p x y (dx, dy)) =
               (3 \<le> f \<or> (1 \<le> g \<and> 2 \<le> f) \<or> (2 \<le> g \<and> 1 \<le> f) \<or> 3 \<le> g)"
  proof -
    have "axisCount b p x y (dx, dy) = 1 + f + g"
      by (simp add: axisCount_def f_def g_def)
    then show ?thesis by arith
  qed
  have w0: "fourAt b p x y (dx, dy) = (Q 0 \<and> Q 1 \<and> Q 2 \<and> Q 3)"
    by (simp add: fourAt_def Q_def)
  have w1: "fourAt b p (x - dx) (y - dy) (dx, dy) = (Q (- 1) \<and> Q 0 \<and> Q 1 \<and> Q 2)"
    by (simp add: fourAt_def Q_def add.commute)
  have w2: "fourAt b p (x - 2 * dx) (y - 2 * dy) (dx, dy) = (Q (- 2) \<and> Q (- 1) \<and> Q 0 \<and> Q 1)"
    by (simp add: fourAt_def Q_def add.commute)
  have w3: "fourAt b p (x - 3 * dx) (y - 3 * dy) (dx, dy) = (Q (- 3) \<and> Q (- 2) \<and> Q (- 1) \<and> Q 0)"
    by (simp add: fourAt_def Q_def add.commute)
  show ?thesis
    unfolding count w0 w1 w2 w3 f1 f2 f3 g1 g2 g3 using Q0 by blast
qed

lemma cellAt_placed:
  assumes "wellFormed b" and "0 \<le> c" and "c < 7" and "r < 6"
  shows "cellAt (b[nat c := (b ! nat c)[r := Some p]]) x y =
         (if x = c \<and> y = int r then Some p else cellAt b x y)"
proof -
  from assms have len: "length b = 7" and col: "length (b ! nat c) = 6"
    by (auto simp: wellFormed_def COLS_def ROWS_def list_all_iff)
  show ?thesis
  proof (cases "0 \<le> x \<and> x < 7 \<and> 0 \<le> y \<and> y < 6")
    case False
    with assms show ?thesis
      by (auto simp: cellAt_def COLS_def ROWS_def)
  next
    case True
    show ?thesis
    proof (cases "x = c")
      case True
      with \<open>0 \<le> x \<and> x < 7 \<and> 0 \<le> y \<and> y < 6\<close> assms len col show ?thesis
        by (auto simp: cellAt_def COLS_def ROWS_def nth_list_update)
    next
      case False
      with \<open>0 \<le> x \<and> x < 7 \<and> 0 \<le> y \<and> y < 6\<close> \<open>0 \<le> c\<close> have "nat x \<noteq> nat c"
        by arith
      with False show ?thesis
        by (simp add: cellAt_def)
    qed
  qed
qed

lemma wellFormed_placed:
  assumes "wellFormed b"
  shows "wellFormed (b[nat c := (b ! nat c)[r := v]])"
proof -
  have "length column = ROWS" if "column \<in> set (b[nat c := (b ! nat c)[r := v]])" for column
  proof -
    from that have "column = (b ! nat c)[r := v] \<and> nat c < length b \<or> column \<in> set b"
      by (metis in_set_conv_nth length_list_update nth_list_update_eq nth_list_update_neq nth_mem)
    with assms show ?thesis
      by (auto simp: wellFormed_def list_all_iff)
  qed
  with assms show ?thesis
    by (simp add: wellFormed_def list_all_iff)
qed

lemma fourAt_here: "fourAt b p x y axis \<Longrightarrow> cellAt b x y = Some p"
  by (cases axis) (simp add: fourAt_def)

lemma cellAt_bounds: "cellAt b x y = Some p \<Longrightarrow> 0 \<le> x \<and> x < 7 \<and> 0 \<le> y \<and> y < 6"
  by (simp add: cellAt_def COLS_def ROWS_def split: if_splits)

lemma hasFour_iff:
  "hasFour b p = (\<exists>x y axis. axis \<in> set axes \<and> fourAt b p x y axis)"
proof
  assume "hasFour b p"
  then show "\<exists>x y axis. axis \<in> set axes \<and> fourAt b p x y axis"
    unfolding hasFour_def list_ex_iff by blast
next
  assume "\<exists>x y axis. axis \<in> set axes \<and> fourAt b p x y axis"
  then obtain x y axis where ax: "axis \<in> set axes" and four: "fourAt b p x y axis"
    by blast
  from four have "0 \<le> x \<and> x < 7 \<and> 0 \<le> y \<and> y < 6"
    using fourAt_here cellAt_bounds by blast
  then have "nat x \<in> set [0 ..< COLS]" "nat y \<in> set [0 ..< ROWS]" "int (nat x) = x" "int (nat y) = y"
    by (auto simp: COLS_def ROWS_def)
  with ax four show "hasFour b p"
    unfolding hasFour_def list_ex_iff by metis
qed

lemma isWin_iff:
  assumes "cellAt b x y = Some p"
  shows "isWin b p x y =
         (\<exists>axis \<in> set axes. \<exists>j \<in> {0, 1, 2, 3}.
            fourAt b p (x - j * fst axis) (y - j * snd axis) axis)"
proof -
  have "(4 \<le> axisCount b p x y axis) =
        (\<exists>j \<in> {0, 1, 2, 3}. fourAt b p (x - j * fst axis) (y - j * snd axis) axis)" for axis
    using axis_count_window [OF assms, of "fst axis" "snd axis"] by simp
  then show ?thesis
    by (simp add: isWin_def list_ex_iff)
qed

text \<open>
  Four in a row on the board after a move either go through the placed cell or
  were there before the move.
\<close>

lemma fourAt_Ball:
  "fourAt b p x y (dx, dy) =
   (\<forall>i \<in> {0, 1, 2, 3}. cellAt b (x + i * dx) (y + i * dy) = Some p)"
  by (simp add: fourAt_def)

lemma fourAt_placed:
  assumes wf: "wellFormed b" and c: "0 \<le> c" "c < 7" and r: "r < 6"
    and four: "fourAt (b[nat c := (b ! nat c)[r := Some p]]) q x0 y0 axis"
  shows "(\<exists>j \<in> {0, 1, 2, 3}. x0 = c - j * fst axis \<and> y0 = int r - j * snd axis \<and> q = p) \<or>
         fourAt b q x0 y0 axis"
proof -
  obtain dx dy where axis: "axis = (dx, dy)"
    by (cases axis)
  let ?b = "b[nat c := (b ! nat c)[r := Some p]]"
  from four have all: "\<forall>i \<in> {0, 1, 2, 3}. cellAt ?b (x0 + i * dx) (y0 + i * dy) = Some q"
    unfolding axis fourAt_Ball .
  show ?thesis
  proof (cases "\<exists>j \<in> {0, 1, 2, 3}. x0 + j * dx = c \<and> y0 + j * dy = int r")
    case True
    then obtain j where j: "j \<in> {0, 1, 2, 3}" "x0 + j * dx = c" "y0 + j * dy = int r"
      by blast
    from all j(1) have "cellAt ?b (x0 + j * dx) (y0 + j * dy) = Some q"
      by blast
    with j have "q = p"
      using cellAt_placed [OF wf c r, of p c "int r"] by simp
    moreover from j have "x0 = c - j * dx" "y0 = int r - j * dy"
      by simp_all
    ultimately show ?thesis
      using j(1) axis by auto
  next
    case False
    have "cellAt b (x0 + i * dx) (y0 + i * dy) = Some q" if i: "i \<in> {0, 1, 2, 3}" for i
    proof -
      from False i have "\<not> (x0 + i * dx = c \<and> y0 + i * dy = int r)"
        by blast
      then have "cellAt ?b (x0 + i * dx) (y0 + i * dy) = cellAt b (x0 + i * dx) (y0 + i * dy)"
        using cellAt_placed [OF wf c r, of p "x0 + i * dx" "y0 + i * dy"] by auto
      with all i show ?thesis
        by metis
    qed
    then have "fourAt b q x0 y0 axis"
      unfolding axis fourAt_Ball by blast
    then show ?thesis by blast
  qed
qed

lemma win_iff_hasFour:
  assumes wf: "wellFormed b" and c: "0 \<le> c" "c < 7" and r: "r < 6"
    and none: "\<not> hasFour b p"
  shows "isWin (b[nat c := (b ! nat c)[r := Some p]]) p c (int r) =
         hasFour (b[nat c := (b ! nat c)[r := Some p]]) p"
proof -
  let ?b = "b[nat c := (b ! nat c)[r := Some p]]"
  have here: "cellAt ?b c (int r) = Some p"
    using cellAt_placed [OF wf c r, of p c "int r"] by simp
  show ?thesis
  proof
    assume "isWin ?b p c (int r)"
    then show "hasFour ?b p"
      unfolding isWin_iff [OF here] hasFour_iff by blast
  next
    assume "hasFour ?b p"
    then obtain x0 y0 axis where ax: "axis \<in> set axes" and four: "fourAt ?b p x0 y0 axis"
      unfolding hasFour_iff by blast
    from fourAt_placed [OF wf c r four] none ax
    obtain j where "j \<in> {0, 1, 2, 3}" "x0 = c - j * fst axis" "y0 = int r - j * snd axis"
      unfolding hasFour_iff by blast
    with four ax show "isWin ?b p c (int r)"
      unfolding isWin_iff [OF here] by blast
  qed
qed

lemma hasFour_other:
  assumes wf: "wellFormed b" and c: "0 \<le> c" "c < 7" and r: "r < 6"
    and q: "q \<noteq> p" and four: "hasFour (b[nat c := (b ! nat c)[r := Some p]]) q"
  shows "hasFour b q"
proof -
  from four obtain x0 y0 axis where ax: "axis \<in> set axes"
    and f: "fourAt (b[nat c := (b ! nat c)[r := Some p]]) q x0 y0 axis"
    unfolding hasFour_iff by blast
  from fourAt_placed [OF wf c r f] q have "fourAt b q x0 y0 axis"
    by blast
  with ax show ?thesis
    unfolding hasFour_iff by blast
qed

section \<open>Games from the initial state\<close>

lemma applyMove_InrE:
  assumes "applyMove s c = Inr s'"
  obtains r where "\<not> isGameOver s" and "0 \<le> c" and "c \<le> 6"
    and "lowestEmpty (board s ! nat c) = Some r"
    and "board s' = (board s)[nat c := (board s ! nat c)[r := Some (currentPlayer s)]]"
    and "isGameOver s' = (isWin (board s') (currentPlayer s) c (int r) \<or> boardFull (board s'))"
    and "winner s' = (if isWin (board s') (currentPlayer s) c (int r)
                      then Some (currentPlayer s) else None)"
    and "currentPlayer s' = (if isGameOver s' then currentPlayer s else other (currentPlayer s))"
  using assms
  by (auto simp: applyMove_def Let_def split: if_splits option.splits)

lemma cellAt_initial: "cellAt (replicate COLS (replicate ROWS None)) x y = None"
proof (cases "0 \<le> x \<and> x < int COLS \<and> 0 \<le> y \<and> y < int ROWS")
  case True
  then have "nat x < COLS" "nat y < ROWS"
    by auto
  with True show ?thesis
    by (simp add: cellAt_def)
next
  case False
  then show ?thesis
    unfolding cellAt_def by (simp only: if_False)
qed

lemma gameInvariant_initial: "gameInvariant (createInitialState first)"
proof -
  have "\<not> hasFour (replicate COLS (replicate ROWS None)) p" for p
    using fourAt_here [of "replicate COLS (replicate ROWS None)" p]
    by (auto simp: hasFour_iff cellAt_initial)
  then show ?thesis
    by (simp add: gameInvariant_def createInitialState_def wellFormed_def boardFull_def
          COLS_def ROWS_def list_all_iff)
qed

lemma wellFormed_column:
  "wellFormed b \<Longrightarrow> 0 \<le> c \<Longrightarrow> c \<le> 6 \<Longrightarrow> length (b ! nat c) = 6"
  by (auto simp: wellFormed_def COLS_def ROWS_def list_all_iff)

text \<open>One move: the invariant is kept, and a win is reported exactly with four in a row.\<close>

lemma applyMove_step:
  assumes inv: "gameInvariant s" and move: "applyMove s c = Inr s'"
  shows "gameInvariant s'"
    and "(isGameOver s' \<and> winner s' = Some (currentPlayer s)) = hasFour (board s') (currentPlayer s)"
    and "\<not> hasFour (board s) (currentPlayer s)"
proof -
  from move obtain r where live: "\<not> isGameOver s" and c: "0 \<le> c" "c \<le> 6"
    and r: "lowestEmpty (board s ! nat c) = Some r"
    and b': "board s' = (board s)[nat c := (board s ! nat c)[r := Some (currentPlayer s)]]"
    and over: "isGameOver s' = (isWin (board s') (currentPlayer s) c (int r) \<or> boardFull (board s'))"
    and win: "winner s' = (if isWin (board s') (currentPlayer s) c (int r)
                           then Some (currentPlayer s) else None)"
    by (rule applyMove_InrE)
  from inv live have wf: "wellFormed (board s)"
    and none: "\<not> hasFour (board s) red" "\<not> hasFour (board s) yellow"
    by (simp_all add: gameInvariant_def)
  from c have c7: "c < 7" by simp
  from r have "r < length (board s ! nat c)"
    using lowestEmpty_Some by blast
  with wf c have r6: "r < 6"
    by (simp add: wellFormed_column)
  let ?p = "currentPlayer s"
  from none have nop: "\<not> hasFour (board s) ?p"
    by (cases ?p) simp_all
  then show "\<not> hasFour (board s) (currentPlayer s)" .
  have iff: "isWin (board s') ?p c (int r) = hasFour (board s') ?p"
    unfolding b' by (rule win_iff_hasFour [OF wf c(1) c7 r6 nop])
  show "(isGameOver s' \<and> winner s' = Some ?p) = hasFour (board s') ?p"
    using over win iff by auto
  have wf': "wellFormed (board s')"
    unfolding b' by (rule wellFormed_placed [OF wf])
  have other: "\<not> hasFour (board s') q" if "q \<noteq> ?p" for q
  proof
    assume "hasFour (board s') q"
    then have "hasFour (board s) q"
      unfolding b' using hasFour_other [OF wf c(1) c7 r6 that] by blast
    with none show False
      by (cases q) simp_all
  qed
  show "gameInvariant s'"
  proof (cases "isGameOver s'")
    case True
    with wf' show ?thesis by (simp add: gameInvariant_def)
  next
    case False
    with over iff have "\<not> hasFour (board s') ?p" "\<not> boardFull (board s')"
      by simp_all
    moreover from this(1) other have "\<not> hasFour (board s') q" for q
      by (cases "q = ?p") simp_all
    ultimately show ?thesis
      using wf' by (simp add: gameInvariant_def)
  qed
qed

lemma applyMoves_invariant:
  "gameInvariant s \<Longrightarrow> applyMoves s columns = Inr t \<Longrightarrow> gameInvariant t"
proof (induction columns arbitrary: s)
  case Nil
  then show ?case by simp
next
  case (Cons c columns)
  from Cons.prems(2) obtain s' where s': "applyMove s c = Inr s'" "applyMoves s' columns = Inr t"
    by (auto split: sum.splits)
  from applyMove_step(1) [OF Cons.prems(1) s'(1)] s'(2) show ?case
    by (rule Cons.IH)
qed

lemma applyMoves_append:
  "applyMoves s (xs @ ys) =
   (case applyMoves s xs of Inl e \<Rightarrow> Inl e | Inr u \<Rightarrow> applyMoves u ys)"
  by (induction xs arbitrary: s) (auto split: sum.splits)

lemma applyMove_live: "applyMove s c = Inr s' \<Longrightarrow> \<not> isGameOver s"
  by (auto simp: applyMove_def)

text \<open>In a sequence of moves that all succeed, every state before the last is not over.\<close>

lemma applyMoves_prefix_live:
  assumes "applyMoves s columns = Inr t" and "applyMove t c = Inr t'" and "k \<le> length columns"
  shows "\<exists>earlier. applyMoves s (take k columns) = Inr earlier \<and> \<not> isGameOver earlier"
proof -
  have split_moves: "columns = take k columns @ drop k columns"
    by simp
  from assms(1) obtain u where u: "applyMoves s (take k columns) = Inr u"
    and rest: "applyMoves u (drop k columns) = Inr t"
    using applyMoves_append [of s "take k columns" "drop k columns"]
    by (auto split: sum.splits)
  have "\<not> isGameOver u"
  proof (cases "drop k columns")
    case Nil
    with rest have "u = t" by simp
    with assms(2) show ?thesis using applyMove_live by blast
  next
    case (Cons d ds)
    with rest obtain u' where "applyMove u d = Inr u'"
      by (auto split: sum.splits)
    then show ?thesis using applyMove_live by blast
  qed
  with u show ?thesis by blast
qed

text \<open>
  C1. In a game played from the initial state, a move ends the game with the mover
  as winner exactly when the board after the move holds four contiguous cells of the
  mover's colour on some axis; the board before the move holds no such four, so the
  move completes them; no state before the move is over; and the moves 0, 0, 1, 1,
  2, 2, 3 end with the game over and the first colour as winner.
\<close>

theorem win_reported_on_completing_move:
  assumes "applyMoves (createInitialState first) columns = Inr state"
    and "applyMove state column = Inr state'"
  shows "((isGameOver state' \<and> winner state' = Some (currentPlayer state)) =
            hasFour (board state') (currentPlayer state)) \<and>
         \<not> hasFour (board state) (currentPlayer state) \<and>
         (\<forall>k. k \<le> length columns \<longrightarrow>
            (\<exists>earlier. applyMoves (createInitialState first) (take k columns) = Inr earlier \<and>
               \<not> isGameOver earlier)) \<and>
         (case applyMoves (createInitialState first) [0, 0, 1, 1, 2, 2, 3] of
            Inl e \<Rightarrow> False
          | Inr final \<Rightarrow> isGameOver final \<and> winner final = Some first)"
proof -
  have inv: "gameInvariant state"
    using applyMoves_invariant [OF gameInvariant_initial assms(1)] .
  have scenario: "case applyMoves (createInitialState first) [0, 0, 1, 1, 2, 2, 3] of
            Inl e \<Rightarrow> False
          | Inr final \<Rightarrow> isGameOver final \<and> winner final = Some first"
  proof (cases first)
    case red
    have "case applyMoves (createInitialState red) [0, 0, 1, 1, 2, 2, 3] of
            Inl e \<Rightarrow> False
          | Inr final \<Rightarrow> isGameOver final \<and> winner final = Some red"
      by code_simp
    then show ?thesis unfolding red .
  next
    case yellow
    have "case applyMoves (createInitialState yellow) [0, 0, 1, 1, 2, 2, 3] of
            Inl e \<Rightarrow> False
          | Inr final \<Rightarrow> isGameOver final \<and> winner final = Some yellow"
      by code_simp
    then show ?thesis unfolding yellow .
  qed
  show ?thesis
    using applyMove_step(2,3) [OF inv assms(2)]
      applyMoves_prefix_live [OF assms(1) assms(2)] scenario
    by blast
qed

theorem win_reported_on_completing_move_witness:
  "applyMoves (createInitialState red) [0, 0, 1, 1, 2, 2] = Inr beforeWin \<and>
   applyMove beforeWin 3 = Inr (GameState.truncate wonState) \<and>
   isGameOver wonState \<and> winner wonState = Some red \<and>
   hasFour (board wonState) red \<and>
   \<not> hasFour (board beforeWin) red \<and>
   (\<exists>earlier. applyMoves (createInitialState red) (take 4 [0, 0, 1, 1, 2, 2]) = Inr earlier \<and>
      \<not> isGameOver earlier)"
proof -
  have h1: "applyMoves (createInitialState red) [0, 0, 1, 1, 2, 2] = Inr beforeWin"
    by code_simp
  have h2: "applyMove beforeWin 3 = Inr (GameState.truncate wonState)"
    by code_simp
  note t = win_reported_on_completing_move [OF h1 h2]
  have won: "isGameOver wonState \<and> winner wonState = Some red"
    by (simp add: wonState_def)
  have mover: "currentPlayer beforeWin = red"
    by (simp add: beforeWin_def)
  have same: "board (GameState.truncate wonState) = board wonState"
    "isGameOver (GameState.truncate wonState) = isGameOver wonState"
    "winner (GameState.truncate wonState) = winner wonState"
    by (simp_all add: GameState.truncate_def)
  from t [THEN conjunct1] won have four: "hasFour (board wonState) red"
    by (simp add: mover same)
  from t [THEN conjunct2, THEN conjunct1] have none: "\<not> hasFour (board beforeWin) red"
    by (simp add: mover)
  from t [THEN conjunct2, THEN conjunct2, THEN conjunct1, rule_format, of 4]
  have early: "\<exists>earlier. applyMoves (createInitialState red) (take 4 [0, 0, 1, 1, 2, 2]) = Inr earlier \<and>
      \<not> isGameOver earlier"
    by simp
  from h1 h2 won four none early show ?thesis
    by blast
qed

section \<open>Alpha-beta against minimax\<close>

lemma NegInf_least [simp]: "NegInf \<le> v"
  by simp

lemma PosInf_greatest [simp]: "v \<le> PosInf"
  by (cases v) simp_all

lemma max_NegInf [simp]: "max a NegInf = a"
  by (cases a) (simp_all add: max_def)

lemma min_PosInf [simp]: "min b PosInf = b"
  by (cases b) (simp_all add: min_def)

lemma boundsValue_same: "boundsValue a b v v"
  by (simp add: boundsValue_def)

lemma boundsValue_max_step:
  fixes a0 b bestScore bm v m :: score
  assumes "a0 < b" and "bestScore < b" and "boundsValue a0 b bestScore bm"
    and "boundsValue (max a0 bestScore) b v m"
  shows "boundsValue a0 b (max bestScore v) (max bm m)"
  using assms unfolding boundsValue_def max_def
  by (auto split: if_splits)

lemma boundsValue_min_step:
  fixes a b0 bestScore bm v m :: score
  assumes "a < b0" and "a < bestScore" and "boundsValue a b0 bestScore bm"
    and "boundsValue a (min b0 bestScore) v m"
  shows "boundsValue a b0 (min bestScore v) (min bm m)"
  using assms unfolding boundsValue_def min_def
  by (auto split: if_splits)

lemma boundsValue_cut_high: "a < b \<Longrightarrow> b \<le> v \<Longrightarrow> v \<le> m \<Longrightarrow> boundsValue a b v m"
  unfolding boundsValue_def by auto

lemma boundsValue_cut_low: "a < b \<Longrightarrow> v \<le> a \<Longrightarrow> m \<le> v \<Longrightarrow> boundsValue a b v m"
  unfolding boundsValue_def by auto

lemma minimaxMax_ge: "bm \<le> minimaxMax sc h me d ply bm cs"
proof (induction cs arbitrary: bm)
  case Nil
  show ?case by simp
next
  case (Cons c cs)
  have "bm \<le> max bm (minimax sc h me d ply c)"
    by simp
  also have "\<dots> \<le> minimaxMax sc h me d ply (max bm (minimax sc h me d ply c)) cs"
    by (rule Cons.IH)
  finally show ?case by simp
qed

lemma minimaxMin_le: "minimaxMin sc h me d ply bm cs \<le> bm"
proof (induction cs arbitrary: bm)
  case Nil
  show ?case by simp
next
  case (Cons c cs)
  have "minimaxMin sc h me d ply (min bm (minimax sc h me d ply c)) cs
          \<le> min bm (minimax sc h me d ply c)"
    by (rule Cons.IH)
  also have "\<dots> \<le> bm"
    by simp
  finally show ?case by simp
qed

text \<open>
  The two loops, given that the search of a successor keeps its promise: the
  running best of the pruned loop bounds the running best of the unpruned one, with
  respect to the window the loop started with.
\<close>

lemma alphabetaMax_bounds:
  assumes node: "\<And>a b s. a < b \<Longrightarrow>
                   boundsValue a b (alphabeta h me d ply a b s) (minimax True h me d ply s)"
  shows "a0 < b \<Longrightarrow> bestScore < b \<Longrightarrow> boundsValue a0 b bestScore bm \<Longrightarrow>
         boundsValue a0 b
           (alphabetaMax h me d ply (max a0 bestScore) b bestScore cs)
           (minimaxMax True h me d ply bm cs)"
proof (induction cs arbitrary: bestScore bm)
  case Nil
  then show ?case by simp
next
  case (Cons c cs)
  let ?v = "alphabeta h me d ply (max a0 bestScore) b c"
  let ?m = "minimax True h me d ply c"
  from Cons.prems have window: "max a0 bestScore < b"
    by simp
  have step: "boundsValue a0 b (max bestScore ?v) (max bm ?m)"
    using Cons.prems node [OF window] by (intro boundsValue_max_step)
  have alpha': "max (max a0 bestScore) ?v = max a0 (max bestScore ?v)"
    by (simp add: max.assoc)
  show ?case
  proof (cases "b \<le> max a0 (max bestScore ?v)")
    case True
    with Cons.prems(1) have cut: "b \<le> max bestScore ?v"
      by (auto simp: max_def split: if_splits)
    with step have "max bestScore ?v \<le> max bm ?m"
      by (simp add: boundsValue_def)
    also have "\<dots> \<le> minimaxMax True h me d ply (max bm ?m) cs"
      by (rule minimaxMax_ge)
    finally have "max bestScore ?v \<le> minimaxMax True h me d ply (max bm ?m) cs" .
    with cut Cons.prems(1) have "boundsValue a0 b (max bestScore ?v)
                                   (minimaxMax True h me d ply (max bm ?m) cs)"
      by (intro boundsValue_cut_high)
    with True show ?thesis
      by (simp add: Let_def alpha')
  next
    case False
    then have "max bestScore ?v < b"
      by (auto simp: max_def split: if_splits)
    from Cons.IH [OF Cons.prems(1) this step] False show ?thesis
      by (simp add: Let_def alpha')
  qed
qed

lemma alphabetaMin_bounds:
  assumes node: "\<And>a b s. a < b \<Longrightarrow>
                   boundsValue a b (alphabeta h me d ply a b s) (minimax True h me d ply s)"
  shows "a < b0 \<Longrightarrow> a < bestScore \<Longrightarrow> boundsValue a b0 bestScore bm \<Longrightarrow>
         boundsValue a b0
           (alphabetaMin h me d ply a (min b0 bestScore) bestScore cs)
           (minimaxMin True h me d ply bm cs)"
proof (induction cs arbitrary: bestScore bm)
  case Nil
  then show ?case by simp
next
  case (Cons c cs)
  let ?v = "alphabeta h me d ply a (min b0 bestScore) c"
  let ?m = "minimax True h me d ply c"
  from Cons.prems have window: "a < min b0 bestScore"
    by simp
  have step: "boundsValue a b0 (min bestScore ?v) (min bm ?m)"
    using Cons.prems node [OF window] by (intro boundsValue_min_step)
  have beta': "min (min b0 bestScore) ?v = min b0 (min bestScore ?v)"
    by (simp add: min.assoc)
  show ?case
  proof (cases "min b0 (min bestScore ?v) \<le> a")
    case True
    with Cons.prems(1) have cut: "min bestScore ?v \<le> a"
      by (auto simp: min_def split: if_splits)
    have "minimaxMin True h me d ply (min bm ?m) cs \<le> min bm ?m"
      by (rule minimaxMin_le)
    also from cut step have "\<dots> \<le> min bestScore ?v"
      by (simp add: boundsValue_def)
    finally have "minimaxMin True h me d ply (min bm ?m) cs \<le> min bestScore ?v" .
    with cut Cons.prems(1) have "boundsValue a b0 (min bestScore ?v)
                                   (minimaxMin True h me d ply (min bm ?m) cs)"
      by (intro boundsValue_cut_low)
    with True show ?thesis
      by (simp add: Let_def beta')
  next
    case False
    then have "a < min bestScore ?v"
      by (auto simp: min_def split: if_splits)
    from Cons.IH [OF Cons.prems(1) this step] False show ?thesis
      by (simp add: Let_def beta')
  qed
qed

text \<open>The search of a node keeps its promise, at every depth.\<close>

lemma alphabeta_bounds:
  "a < b \<Longrightarrow> boundsValue a b (alphabeta h me d ply a b s) (minimax True h me d ply s)"
proof (induction d arbitrary: a b ply s)
  case 0
  show ?case by (simp add: boundsValue_same)
next
  case (Suc d)
  have low: "NegInf < b"
    using Suc.prems by (cases b; cases a) (simp_all add: less_score_def)
  have high: "a < PosInf"
    using Suc.prems by (cases b; cases a) (simp_all add: less_score_def)
  have maxLoop: "boundsValue a b (alphabetaMax h me d (Suc ply) a b NegInf (children s))
                   (minimaxMax True h me d (Suc ply) NegInf (children s))"
    using alphabetaMax_bounds [of h me d "Suc ply" a b NegInf NegInf "children s",
            OF Suc.IH Suc.prems low boundsValue_same]
    by simp
  have minLoop: "boundsValue a b (alphabetaMin h me d (Suc ply) a b PosInf (children s))
                   (minimaxMin True h me d (Suc ply) PosInf (children s))"
    using alphabetaMin_bounds [of h me d "Suc ply" a b PosInf PosInf "children s",
            OF Suc.IH Suc.prems high boundsValue_same]
    by simp
  show ?case
    using maxLoop minLoop by (simp add: boundsValue_same)
qed

text \<open>At the root both searches replace the best column at the same columns.\<close>

lemma alphabetaRoot_minimaxRoot:
  "alphabetaRoot h me d bestScore bestMove succs = minimaxRoot True h me d bestScore bestMove succs"
proof (induction succs arbitrary: bestScore bestMove)
  case Nil
  show ?case by simp
next
  case (Cons cs succs)
  obtain column child where cs: "cs = (column, child)"
    by (cases cs)
  let ?v = "alphabeta h me d 1 bestScore PosInf child"
  let ?m = "minimax True h me d 1 child"
  have same: "(bestScore < ?v) = (bestScore < ?m) \<and> (bestScore < ?v \<longrightarrow> ?v = ?m)"
  proof (cases "bestScore < PosInf")
    case True
    from alphabeta_bounds [OF True, of h me d 1 child]
    have "boundsValue bestScore PosInf ?v ?m" .
    then show ?thesis
      unfolding boundsValue_def
      by (metis PosInf_greatest leD leI le_less_trans less_le_trans order.antisym)
  next
    case False
    then have "bestScore = PosInf"
      by (cases bestScore) (simp_all add: less_score_def)
    then show ?thesis
      by (simp add: less_score_def)
  qed
  show ?case
  proof (cases "bestScore < ?v")
    case True
    with same have "bestScore < ?m" "?v = ?m"
      by blast+
    then show ?thesis
      unfolding cs by (simp add: Cons.IH)
  next
    case False
    with same have "\<not> bestScore < ?m"
      by blast
    with False show ?thesis
      unfolding cs by (simp add: Cons.IH)
  qed
qed

text \<open>
  C7. The column the alpha-beta search returns is the column unpruned minimax
  returns, at the same depth, with the same heuristic, terminal scores, shortcuts
  and search order: for the search itself, from any state, and for \<open>chooseMove\<close> at
  High quality.
\<close>

theorem pruning_keeps_the_move:
  "alphabetaMove h depth state firstLegal = minimaxMove True h depth state firstLegal \<and>
   chooseMove params state best = chooseMoveUnpruned params state"
  by (simp add: alphabetaMove_def minimaxMove_def chooseMove_def chooseMoveUnpruned_def
        alphabetaRoot_minimaxRoot split: list.splits)

theorem pruning_keeps_the_move_witness:
  "chooseMove exampleParams (GameState.truncate yellowToMove) best = Inr 3 \<and>
   chooseMoveUnpruned exampleParams (GameState.truncate yellowToMove) = Inr 3"
proof -
  have "chooseMove exampleParams (GameState.truncate yellowToMove) best = Inr 3"
    by code_simp
  with pruning_keeps_the_move [where params = exampleParams and state = "GameState.truncate yellowToMove"]
  show ?thesis
    by simp
qed

section \<open>The chosen column is legal\<close>

lemma set_searchOrder: "(c \<in> set searchOrder) = (0 \<le> c \<and> c \<le> 6)"
proof
  assume "c \<in> set searchOrder"
  then show "0 \<le> c \<and> c \<le> 6"
    by (auto simp: searchOrder_def)
next
  assume "0 \<le> c \<and> c \<le> 6"
  then have "c = 0 \<or> c = 1 \<or> c = 2 \<or> c = 3 \<or> c = 4 \<or> c = 5 \<or> c = 6"
    by arith
  then show "c \<in> set searchOrder"
    by (auto simp: searchOrder_def)
qed

lemma legalMoves_iff:
  "(c \<in> set (legalMoves s)) = (0 \<le> c \<and> c \<le> 6 \<and> None \<in> set (board s ! nat c))"
  by (auto simp: legalMoves_def hasRoom_def set_searchOrder)

lemma successors_legal: "(c, s') \<in> set (successors s) \<Longrightarrow> c \<in> set (legalMoves s)"
  by (auto simp: successors_def split: sum.splits)

lemma minimaxRoot_mem:
  "minimaxRoot sc h me d bestScore bestMove succs \<in> insert bestMove (fst ` set succs)"
proof (induction succs arbitrary: bestScore bestMove)
  case Nil
  show ?case by simp
next
  case (Cons cs succs)
  obtain column child where cs: "cs = (column, child)"
    by (cases cs)
  show ?case
    using Cons.IH [of "minimax sc h me d 1 child" column] Cons.IH [of bestScore bestMove]
    by (auto simp: cs Let_def)
qed

lemma lowMove_mem:
  "firstLegal \<in> set (legalMoves s) \<Longrightarrow> lowMove s firstLegal \<in> set (legalMoves s)"
  by (auto simp: lowMove_def find_Some_iff split: option.splits)

lemma chooseMove_mem:
  assumes "\<not> isGameOver s" and "legalMoves s \<noteq> []"
  shows "\<exists>c. chooseMove params s q = Inr c \<and> c \<in> set (legalMoves s)"
proof -
  from assms(2) obtain firstLegal rest where moves: "legalMoves s = firstLegal # rest"
    by (cases "legalMoves s") auto
  then have first: "firstLegal \<in> set (legalMoves s)"
    by simp
  have root: "minimaxRoot sc h me d bs firstLegal (successors s) \<in> set (legalMoves s)"
    for sc h me d bs
    using minimaxRoot_mem [of sc h me d bs firstLegal "successors s"] first successors_legal
    by auto
  show ?thesis
  proof (cases q)
    case bad
    with assms(1) moves lowMove_mem [OF first] show ?thesis
      by (simp add: chooseMove_def)
  next
    case medium
    with assms(1) moves root show ?thesis
      by (simp add: chooseMove_def minimaxMove_def)
  next
    case best
    with assms(1) moves root show ?thesis
      by (simp add: chooseMove_def alphabetaMove_def alphabetaRoot_minimaxRoot)
  qed
qed

lemma invariant_room:
  assumes "gameInvariant s" and "\<not> isGameOver s"
  shows "\<exists>c. 0 \<le> c \<and> c \<le> 6 \<and> None \<in> set (board s ! nat c)"
proof -
  from assms have len: "length (board s) = 7" and "\<not> boardFull (board s)"
    by (simp_all add: gameInvariant_def wellFormed_def COLS_def)
  then obtain column where "column \<in> set (board s)" "None \<in> set column"
    by (auto simp: boardFull_def list_all_iff)
  then obtain i where i: "i < length (board s)" "None \<in> set (board s ! i)"
    by (auto simp: in_set_conv_nth)
  with len have "0 \<le> int i \<and> int i \<le> 6 \<and> None \<in> set (board s ! nat (int i))"
    by simp
  then show ?thesis by blast
qed

text \<open>
  C3. On a state that is over \<open>chooseMove\<close> fails with \<open>GameAlreadyOver\<close>; on a
  state that is not over and has no column with room, with \<open>NoLegalMoves\<close>; on every
  other state, and so on every state of a game from the initial state that is not
  over, it returns a column in [0, 6] with an Empty cell, at every quality.
\<close>

theorem chooseMove_legal:
  "(isGameOver state \<longrightarrow> chooseMove params state q = Inl GameAlreadyOver) \<and>
   (\<not> isGameOver state \<and>
    (\<forall>column. 0 \<le> column \<and> column \<le> 6 \<longrightarrow> None \<notin> set (board state ! nat column)) \<longrightarrow>
      chooseMove params state q = Inl NoLegalMoves) \<and>
   (\<not> isGameOver state \<and>
    (\<exists>column. 0 \<le> column \<and> column \<le> 6 \<and> None \<in> set (board state ! nat column)) \<longrightarrow>
      (\<exists>column. chooseMove params state q = Inr column \<and> 0 \<le> column \<and> column \<le> 6 \<and>
         None \<in> set (board state ! nat column))) \<and>
   (\<not> isGameOver state \<and> applyMoves (createInitialState first) columns = Inr state \<longrightarrow>
      (\<exists>column. chooseMove params state q = Inr column \<and> 0 \<le> column \<and> column \<le> 6 \<and>
         None \<in> set (board state ! nat column)))"
proof -
  have over: "isGameOver state \<longrightarrow> chooseMove params state q = Inl GameAlreadyOver"
    by (simp add: chooseMove_def)
  have none: "\<not> isGameOver state \<and>
      (\<forall>column. 0 \<le> column \<and> column \<le> 6 \<longrightarrow> None \<notin> set (board state ! nat column)) \<longrightarrow>
      chooseMove params state q = Inl NoLegalMoves"
  proof
    assume a: "\<not> isGameOver state \<and>
      (\<forall>column. 0 \<le> column \<and> column \<le> 6 \<longrightarrow> None \<notin> set (board state ! nat column))"
    then have "c \<notin> set (legalMoves state)" for c
      using legalMoves_iff [of c state] by blast
    then have "legalMoves state = []"
      by (cases "legalMoves state") auto
    with a show "chooseMove params state q = Inl NoLegalMoves"
      by (simp add: chooseMove_def)
  qed
  have room: "\<exists>column. chooseMove params state q = Inr column \<and> 0 \<le> column \<and> column \<le> 6 \<and>
         None \<in> set (board state ! nat column)"
    if live: "\<not> isGameOver state"
      and some: "\<exists>column. 0 \<le> column \<and> column \<le> 6 \<and> None \<in> set (board state ! nat column)"
  proof -
    from some obtain c where "0 \<le> c \<and> c \<le> 6 \<and> None \<in> set (board state ! nat c)"
      by blast
    then have "c \<in> set (legalMoves state)"
      using legalMoves_iff [of c state] by blast
    then have "legalMoves state \<noteq> []"
      by auto
    from chooseMove_mem [OF live this] obtain column
      where column: "chooseMove params state q = Inr column" "column \<in> set (legalMoves state)"
      by blast
    from column(2) have "0 \<le> column \<and> column \<le> 6 \<and> None \<in> set (board state ! nat column)"
      using legalMoves_iff [of column state] by blast
    with column(1) show ?thesis
      by blast
  qed
  have reach: "\<exists>column. 0 \<le> column \<and> column \<le> 6 \<and> None \<in> set (board state ! nat column)"
    if "\<not> isGameOver state" and "applyMoves (createInitialState first) columns = Inr state"
    using invariant_room [OF applyMoves_invariant [OF gameInvariant_initial that(2)] that(1)] .
  have reached: "\<exists>column. chooseMove params state q = Inr column \<and> 0 \<le> column \<and> column \<le> 6 \<and>
         None \<in> set (board state ! nat column)"
    if "\<not> isGameOver state" and "applyMoves (createInitialState first) columns = Inr state"
    using room [OF that(1) reach [OF that]] .
  have room': "\<not> isGameOver state \<and>
    (\<exists>column. 0 \<le> column \<and> column \<le> 6 \<and> None \<in> set (board state ! nat column)) \<longrightarrow>
      (\<exists>column. chooseMove params state q = Inr column \<and> 0 \<le> column \<and> column \<le> 6 \<and>
         None \<in> set (board state ! nat column))"
  proof
    assume a: "\<not> isGameOver state \<and>
      (\<exists>column. 0 \<le> column \<and> column \<le> 6 \<and> None \<in> set (board state ! nat column))"
    show "\<exists>column. chooseMove params state q = Inr column \<and> 0 \<le> column \<and> column \<le> 6 \<and>
         None \<in> set (board state ! nat column)"
      by (rule room [OF a [THEN conjunct1] a [THEN conjunct2]])
  qed
  have reached': "\<not> isGameOver state \<and> applyMoves (createInitialState first) columns = Inr state \<longrightarrow>
      (\<exists>column. chooseMove params state q = Inr column \<and> 0 \<le> column \<and> column \<le> 6 \<and>
         None \<in> set (board state ! nat column))"
  proof
    assume a: "\<not> isGameOver state \<and> applyMoves (createInitialState first) columns = Inr state"
    show "\<exists>column. chooseMove params state q = Inr column \<and> 0 \<le> column \<and> column \<le> 6 \<and>
         None \<in> set (board state ! nat column)"
      by (rule reached [OF a [THEN conjunct1] a [THEN conjunct2]])
  qed
  show ?thesis
    by (intro conjI over none room' reached')
qed

theorem chooseMove_legal_witness:
  "isGameOver (GameState.truncate wonState) \<and>
   chooseMove exampleParams (GameState.truncate wonState) medium = Inl GameAlreadyOver \<and>
   \<not> isGameOver noRoomState \<and>
   chooseMove exampleParams noRoomState best = Inl NoLegalMoves \<and>
   applyMoves (createInitialState red) [3] = Inr (GameState.truncate yellowToMove) \<and>
   \<not> isGameOver yellowToMove \<and>
   chooseMove exampleParams (GameState.truncate yellowToMove) bad = Inr 3 \<and>
   chooseMove exampleParams (GameState.truncate yellowToMove) medium = Inr 3 \<and>
   chooseMove exampleParams (GameState.truncate yellowToMove) best = Inr 3 \<and>
   None \<in> set (board yellowToMove ! nat 3)"
proof -
  have over: "isGameOver (GameState.truncate wonState)"
    by (simp add: wonState_def GameState.truncate_def)
  note a = chooseMove_legal [of "GameState.truncate wonState" exampleParams medium,
             THEN conjunct1, rule_format, OF over]
  have full: "\<not> isGameOver noRoomState \<and>
      (\<forall>column. 0 \<le> column \<and> column \<le> 6 \<longrightarrow> None \<notin> set (board noRoomState ! nat column))"
  proof (intro conjI allI impI)
    show "\<not> isGameOver noRoomState"
      by (simp add: noRoomState_def)
    fix column :: int
    assume "0 \<le> column \<and> column \<le> 6"
    then have "nat column < 7"
      by arith
    then show "None \<notin> set (board noRoomState ! nat column)"
      by (simp add: noRoomState_def)
  qed
  note b = chooseMove_legal [of noRoomState exampleParams best,
             THEN conjunct2, THEN conjunct1, rule_format, OF full]
  have reach: "applyMoves (createInitialState red) [3] = Inr (GameState.truncate yellowToMove)"
    by code_simp
  have live: "\<not> isGameOver (GameState.truncate yellowToMove)"
    by (simp add: yellowToMove_def GameState.truncate_def)
  have moves: "chooseMove exampleParams (GameState.truncate yellowToMove) bad = Inr 3"
    "chooseMove exampleParams (GameState.truncate yellowToMove) medium = Inr 3"
    "chooseMove exampleParams (GameState.truncate yellowToMove) best = Inr 3"
    by code_simp+
  from chooseMove_legal [of "GameState.truncate yellowToMove" exampleParams medium red "[3]",
         THEN conjunct2, THEN conjunct2, THEN conjunct2, rule_format, OF conjI, OF live reach]
  have "None \<in> set (board (GameState.truncate yellowToMove) ! nat 3)"
    by (simp add: moves)
  then have legal: "None \<in> set (board yellowToMove ! nat 3)"
    by (simp add: GameState.truncate_def)
  from over a full b reach live moves legal show ?thesis
    by simp
qed

end
